theory Spec2Isabelle
  imports Main "HOL-Library.AList" "HOL-Library.Char_ord" "HOL-Library.List_Lexorder"
begin

section \<open>The job manager of manta-mola (lib/job\_manager.js)\<close>

text \<open>
  The JobManager runs one named Marlin job per invocation of \<open>run\<close> and keeps a ledger
  (\<open>jobs.json\<close>) of the jobs it started, so that each is audited once.  The source is
  callback-style JavaScript; here every asynchronous call is a function from the request to
  the answer the remote side gives, the mutable objects \<open>opts\<close> and \<open>self.audit\<close> are a
  state record threaded through the stages, and everything the run does to the outside
  (remote mutations, audit log records, the final callback) is appended to a trace.
  The other log lines (info, debug, error, fatal) are left out.
\<close>

subsection \<open>Errors\<close>

text \<open>
  A JavaScript error as far as the code looks at it: its \<open>name\<close>, \<open>message\<close>, the
  \<open>code\<close> of a Manta client error, the \<open>shouldNotFatal\<close> property the manager sets
  (\<open>None\<close> is \<open>undefined\<close>) and the cause chain that \<open>verror\<close> walks.
\<close>

datatype jserror =
  JSError (err_name: string) (err_message: string) (err_code: "string option")
    (shouldNotFatal: "bool option") (err_cause: "jserror option")

text \<open>\<open>verror.hasCauseWithName(err, name)\<close>: the error or one of its causes has the name.\<close>

fun hasCauseWithName :: "jserror \<Rightarrow> string \<Rightarrow> bool" where
  "hasCauseWithName (JSError n m c f cause) name =
     (n = name \<or> (case cause of None \<Rightarrow> False | Some e \<Rightarrow> hasCauseWithName e name))"

text \<open>\<open>new Error(msg)\<close> and \<open>new verror.VError({ name: n }, msg)\<close>.\<close>

definition Error :: "string \<Rightarrow> jserror" where
  "Error msg = JSError ''Error'' msg None None None"

definition VError :: "string \<Rightarrow> string \<Rightarrow> jserror" where
  "VError n msg = JSError n msg None None None"

text \<open>
  \<open>vasync\<close> reports the failures of a parallel batch as one \<open>MultiError\<close> whose cause
  is the first failure (the count that the real message carries is left out).
\<close>

definition MultiError :: "jserror list \<Rightarrow> jserror" where
  "MultiError es =
     (case es of
        [] \<Rightarrow> JSError ''MultiError'' ''first of errors'' None None None
      | e # _ \<Rightarrow> JSError ''MultiError'' (''first of errors: '' @ err_message e) None None (Some e))"

definition jobDisabled :: string where
  "jobDisabled = ''JobDisabled''"

subsection \<open>Data\<close>

text \<open>
  Times are milliseconds since the epoch, what \<open>new Date(x).getTime()\<close> gives for the
  ISO strings the ledger and the job service hold (a string that is no date is outside
  the model).
\<close>

record job_record =
  timeCreated :: int
  audited :: bool

text \<open>
  The ledger \<open>opts.previousJobs\<close>: a JavaScript object used as a dictionary from job id
  to record.  \<open>for (var jobId in pJobs)\<close> walks it in insertion order, so it is an
  association list; assignment to a new key appends (\<open>AList.update\<close>).
\<close>

type_synonym ledger = "(string \<times> job_record) list"

text \<open>
  A stored object: the JSON text of a ledger, as \<open>recordJobs\<close> writes it, or any
  content that \<open>JSON.parse\<close> rejects.  (JSON that parses to something else than an object
  of job records is outside the model.)
\<close>

datatype doc = LedgerJSON ledger | NotJSON string

definition SyntaxError :: jserror where
  "SyntaxError = JSError ''SyntaxError'' ''Unexpected token in JSON'' None None None"

definition JSON_parse :: "doc \<Rightarrow> jserror + ledger" where
  "JSON_parse d = (case d of LedgerJSON l \<Rightarrow> Inr l | NotJSON raw \<Rightarrow> Inl SyntaxError)"

definition JSON_stringify :: "ledger \<Rightarrow> doc" where
  "JSON_stringify l = LedgerJSON l"

record job_stats =
  errors :: "int option"

record remote_job =
  rj_id :: string
  rj_state :: string
  rj_inputDone :: bool
  rj_timeCreated :: int
  rj_timeDone :: int
  rj_stats :: "job_stats option"

record audit_entry =
  ae_id :: string
  jobErrors :: int
  ae_timeCreated :: int
  jobDurationMillis :: int
  ae_extra :: "string list"

record phase =
  exec :: string
  assets :: "string list option"

record job_def =
  jd_name :: "string option"
  phases :: "phase list"

record file_stats =
  isFile :: bool
  size :: nat

text \<open>\<open>self.audit\<close>, the record of one invocation.\<close>

record invocation_audit =
  startedJob :: nat
  cronFailed :: nat
  startTime :: int
  numberOfObjects :: "nat option"
  currentJobSecondsRunning :: "int option"
  endTime :: "int option"
  cronRunMillis :: "int option"

text \<open>What the run does that is visible outside, in the order it does it.\<close>

datatype event =
    Mkdir string
  | Put string doc
  | CancelJob string
  | CreateJob job_def
  | AddJobKey string "string list"
  | JobAudit audit_entry
  | InvocationAudit invocation_audit
  | Callback "jserror option"

text \<open>
  The configuration in \<open>opts\<close>, with the caller's functions as the answers they give.
  \<open>jobEnabled\<close> and \<open>noJobStart\<close> are compared with \<open>false\<close> and \<open>undefined\<close>
  (\<open>None\<close> is \<open>undefined\<close>); \<open>disableAllJobs\<close> is true when the option is \<open>true\<close>.
\<close>

record opts =
  jobName :: string
  jobRoot :: string
  previousJobsObject :: string
  forceRun :: bool
  disableAllJobs :: bool
  jobEnabled :: "bool option"
  noJobStart :: "bool option"
  directories :: "string list option"
  assetFile :: "string option"
  assetObject :: "string option"
  getJobObjects :: "jserror + string list option"
  getJobDefinition :: "jserror + job_def"
  preAudit :: "(remote_job \<Rightarrow> audit_entry \<Rightarrow> jserror option \<times> audit_entry) option"

text \<open>
  The outside world: the Manta client, the local file system, Node's \<open>path.dirname\<close> and
  the clock readings of one run.  \<open>getJob_done\<close> is the time at which the status fetch of
  a job id completes: \<open>vasync.forEachParallel\<close> starts all fetches at once and collects
  the results as they arrive.
\<close>

record world =
  getObject_error :: "string \<Rightarrow> jserror option"
  put_error :: "string \<Rightarrow> jserror option"
  mkdir_error :: "string \<Rightarrow> jserror option"
  listJobs :: "string \<Rightarrow> jserror + string list"
  getJob :: "string \<Rightarrow> jserror + remote_job"
  getJob_done :: "string \<Rightarrow> nat"
  cancelJob :: "string \<Rightarrow> jserror option"
  createJob :: "job_def \<Rightarrow> jserror + string"
  addJobKey :: "string \<Rightarrow> string list \<Rightarrow> jserror option"
  fs_stat :: "string \<Rightarrow> jserror + file_stats"
  fs_read :: "string \<Rightarrow> doc"
  path_dirname :: "string \<Rightarrow> string"
  now_run :: int
  now_audit :: int
  now_check :: int
  now_create :: int
  now_end :: int

text \<open>
  The mutable part: the fields the stages add to \<open>opts\<close>, \<open>self.audit\<close>, the object
  store and the trace.
\<close>

record state =
  previousJobs :: "ledger option"
  objects :: "string list option"
  job :: "job_def option"
  jobId :: "string option"
  opts_directories :: "string list option"
  audit :: invocation_audit
  store :: "string \<rightharpoonup> doc"
  trace :: "event list"

text \<open>
  How a stage ends: it calls back with no error, calls back with an error, or throws
  (a failed \<open>assert\<close>, after which nothing calls back).
\<close>

datatype outcome = Continue | Fail jserror | Crash

definition emit :: "event \<Rightarrow> state \<Rightarrow> state" where
  "emit e s = s\<lparr>trace := trace s @ [e]\<rparr>"

text \<open>A JavaScript string is truthy when it is defined and not empty.\<close>

definition truthy :: "string option \<Rightarrow> bool" where
  "truthy x = (case x of None \<Rightarrow> False | Some v \<Rightarrow> v \<noteq> [])"

subsection \<open>The object store\<close>

text \<open>
  Modelled from the spec: \<open>common.getObject\<close> (lib/common.js is not among the sources):
  \<open>getObject(path)\<close> gives the bytes or a not-found error, here with the code
  \<open>ResourceNotFound\<close> that \<open>auditPreviousJobs\<close> tests for; any other failure is a
  transport error of the world.
\<close>

definition getObject :: "world \<Rightarrow> state \<Rightarrow> string \<Rightarrow> jserror + doc" where
  "getObject w s path =
     (case getObject_error w path of
        Some e \<Rightarrow> Inl e
      | None \<Rightarrow>
          (case store s path of
             None \<Rightarrow> Inl (JSError ''ResourceNotFoundError'' (path @ '' was not found'')
                          (Some ''ResourceNotFound'') None None)
           | Some d \<Rightarrow> Inr d))"

text \<open>\<open>mantaClient.put(path, stream, o, cb)\<close>: the object is replaced when the put succeeds.\<close>

definition mantaPut :: "world \<Rightarrow> string \<Rightarrow> doc \<Rightarrow> state \<Rightarrow> jserror option \<times> state" where
  "mantaPut w path body s =
     (put_error w path,
      (emit (Put path body) s)
        \<lparr>store := (if put_error w path = None then (store s)(path \<mapsto> body) else store s)\<rparr>)"

subsection \<open>vasync\<close>

text \<open>
  \<open>vasync.pipeline\<close>: the stages run in order on the same argument; the first error ends
  the pipeline and is handed to the final callback.
\<close>

fun pipeline :: "(state \<Rightarrow> outcome \<times> state) list \<Rightarrow> state \<Rightarrow> outcome \<times> state" where
  "pipeline [] s = (Continue, s)"
| "pipeline (f # fs) s =
     (case f s of
        (Continue, s') \<Rightarrow> pipeline fs s'
      | (Fail e, s') \<Rightarrow> (Fail e, s')
      | (Crash, s') \<Rightarrow> (Crash, s'))"

text \<open>
  \<open>vasync.forEachParallel({ func, inputs }, cb)\<close> calls back once every operation is
  done, with a \<open>MultiError\<close> of the failures if there is one, and with a result object:
  \<open>operations[i]\<close> is the outcome for \<open>inputs[i]\<close>, while \<open>successes\<close> holds the results
  of the operations that succeeded, each pushed when its operation completes (the
  library documents \<open>successes\<close> as being in no particular order).  Here \<open>done i\<close> is
  the time at which the operation on input \<open>i\<close> completes; operations that complete at
  the same time are taken in the order of the inputs.
\<close>

fun oks :: "(jserror + 'b) list \<Rightarrow> 'b list" where
  "oks [] = []"
| "oks (Inr r # xs) = r # oks xs"
| "oks (Inl e # xs) = oks xs"

fun fails :: "(jserror + 'b) list \<Rightarrow> jserror list" where
  "fails [] = []"
| "fails (Inr r # xs) = fails xs"
| "fails (Inl e # xs) = e # fails xs"

definition operations :: "('a \<Rightarrow> jserror + 'b) \<Rightarrow> 'a list \<Rightarrow> (jserror + 'b) list" where
  "operations func inputs = map func inputs"

definition successes :: "('a \<Rightarrow> jserror + 'b) \<Rightarrow> ('a \<Rightarrow> nat) \<Rightarrow> 'a list \<Rightarrow> 'b list" where
  "successes func done inputs = oks (map func (sort_key done inputs))"

definition forEachParallel_err :: "('a \<Rightarrow> jserror + 'b) \<Rightarrow> 'a list \<Rightarrow> jserror option" where
  "forEachParallel_err func inputs =
     (case fails (operations func inputs) of [] \<Rightarrow> None | e # es \<Rightarrow> Some (MultiError (e # es)))"

subsection \<open>Auditing previous jobs\<close>

definition QUEUED_STATE :: string where
  "QUEUED_STATE = ''queued''"

definition RUNNING_STATE :: string where
  "RUNNING_STATE = ''running''"

definition MAX_SECONDS_IN_AUDIT_OBJECT :: int where
  "MAX_SECONDS_IN_AUDIT_OBJECT = 60 * 60 * 24 * 7"

text \<open>
  \<open>Math.round(ms / 1000)\<close> for a whole number of milliseconds: \<open>Math.round\<close> rounds
  halves up.
\<close>

definition roundSeconds :: "int \<Rightarrow> int" where
  "roundSeconds ms = (ms + 500) div 1000"

text \<open>The audit object that \<open>auditJob\<close> builds for a job that is no longer running.\<close>

definition mkAudit :: "remote_job \<Rightarrow> audit_entry" where
  "mkAudit j =
     \<lparr>ae_id = rj_id j,
      jobErrors =
        (case rj_stats j of
           None \<Rightarrow> 0
         | Some st \<Rightarrow> (case errors st of None \<Rightarrow> 0 | Some n \<Rightarrow> if n \<noteq> 0 then n else 0)),
      ae_timeCreated = rj_timeCreated j,
      jobDurationMillis = rj_timeDone j - rj_timeCreated j,
      ae_extra = []\<rparr>"

text \<open>
  \<open>auditJob(job, cb)\<close>: \<open>Inl\<close> is \<open>cb(err)\<close>, \<open>Inr a\<close> is \<open>cb(null)\<close> after the audit
  object \<open>a\<close> was logged.  The hook may change the audit object it is given.
\<close>

definition auditJob :: "opts \<Rightarrow> remote_job \<Rightarrow> jserror + audit_entry" where
  "auditJob c j =
     (if rj_state j = RUNNING_STATE \<or> rj_state j = QUEUED_STATE
      then Inl (Error ''Job is still running'')
      else
        (case preAudit c of
           Some hook \<Rightarrow>
             (case hook j (mkAudit j) of
                (Some err, a) \<Rightarrow> Inl err
              | (None, a) \<Rightarrow> Inr a)
         | None \<Rightarrow> Inr (mkAudit j)))"

definition secondsSinceDone :: "int \<Rightarrow> job_record \<Rightarrow> int" where
  "secondsSinceDone now r = roundSeconds (now - timeCreated r)"

definition jobsToAudit :: "ledger \<Rightarrow> string list" where
  "jobsToAudit pJobs = map fst (filter (\<lambda>(jobId, r). \<not> audited r) pJobs)"

definition jobsToDelete :: "int \<Rightarrow> ledger \<Rightarrow> string list" where
  "jobsToDelete now pJobs =
     map fst (filter (\<lambda>(jobId, r). secondsSinceDone now r > MAX_SECONDS_IN_AUDIT_OBJECT) pJobs)"

text \<open>
  The first loop of the last callback: \<open>pJobs[jobsToAudit[i]].audited = true\<close> when
  \<open>results2.operations[i].status\<close> is \<open>ok\<close>.  There is one operation for each id
  of \<open>jobsToAudit\<close>.
\<close>

definition isOk :: "jserror + 'b \<Rightarrow> bool" where
  "isOk r = (case r of Inl e \<Rightarrow> False | Inr v \<Rightarrow> True)"

definition setAudited :: "string \<Rightarrow> ledger \<Rightarrow> ledger" where
  "setAudited k pJobs = AList.map_entry k (\<lambda>r. r\<lparr>audited := True\<rparr>) pJobs"

fun markAudited :: "string list \<Rightarrow> (jserror + audit_entry) list \<Rightarrow> ledger \<Rightarrow> ledger" where
  "markAudited (k # ks) (op # ops) pJobs =
     markAudited ks ops (if isOk op then setAudited k pJobs else pJobs)"
| "markAudited ks ops pJobs = pJobs"

text \<open>
  The second loop: \<open>if (pJobs[dJobId].audited) delete pJobs[dJobId]\<close>.  The ids come from
  the keys of \<open>pJobs\<close>, so the lookup finds an entry.
\<close>

fun deleteAudited :: "string list \<Rightarrow> ledger \<Rightarrow> ledger" where
  "deleteAudited [] pJobs = pJobs"
| "deleteAudited (k # ks) pJobs =
     deleteAudited ks
       (case map_of pJobs k of
          Some r \<Rightarrow> if audited r then AList.delete k pJobs else pJobs
        | None \<Rightarrow> pJobs)"

text \<open>
  Modelled from the spec: \<open>common.getJob\<close> (lib/common.js is not among the sources) is
  \<open>getJobStatus(jobId)\<close> of the job service, the world's \<open>getJob\<close>.

  \<open>reconcile\<close> is the body of \<open>gotObject\<close> after the ledger was parsed: it gives the
  error handed to \<open>cb\<close> (if any), the ledger left in \<open>opts.previousJobs\<close> and the audit
  records logged.  \<open>jobObjects[i]\<close> is \<open>results.successes[i]\<close>.  The first loop reads
  the clock for every entry; it runs without interruption, so one reading \<open>now_audit\<close>
  stands for all of them.  The audit records are logged in the order of \<open>jobObjects\<close>.
\<close>

definition reconcile :: "world \<Rightarrow> opts \<Rightarrow> ledger \<Rightarrow> jserror option \<times> ledger \<times> audit_entry list" where
  "reconcile w c pJobs =
     (let toAudit = jobsToAudit pJobs;
          toDelete = jobsToDelete (now_audit w) pJobs
      in if toAudit = [] then (None, pJobs, [])
         else
           (case forEachParallel_err (getJob w) toAudit of
              Some err2 \<Rightarrow> (Some err2, pJobs, [])
            | None \<Rightarrow>
                (let jobObjects = successes (getJob w) (getJob_done w) toAudit;
                     ops = operations (auditJob c) jobObjects
                 in (None, deleteAudited toDelete (markAudited toAudit ops pJobs), oks ops))))"

text \<open>
  \<open>gotObject(err, data)\<close>, the callback of the fetch, and \<open>auditPreviousJobs\<close>, which
  resets \<open>opts.previousJobs\<close> to the empty object and starts the fetch.
\<close>

definition gotObject :: "world \<Rightarrow> opts \<Rightarrow> state \<Rightarrow> jserror + doc \<Rightarrow> outcome \<times> state" where
  "gotObject w c s res =
     (case res of
        Inl err \<Rightarrow>
          if err_code err = Some ''ResourceNotFound'' then (Continue, s) else (Fail err, s)
      | Inr data \<Rightarrow>
          (case JSON_parse data of
             Inl err2 \<Rightarrow> (Fail err2, s)
           | Inr pJobs \<Rightarrow>
               (case reconcile w c pJobs of
                  (err, pJobs', logged) \<Rightarrow>
                    ((case err of None \<Rightarrow> Continue | Some e \<Rightarrow> Fail e),
                     s\<lparr>previousJobs := Some pJobs', trace := trace s @ map JobAudit logged\<rparr>))))"

definition auditPreviousJobs :: "world \<Rightarrow> opts \<Rightarrow> state \<Rightarrow> outcome \<times> state" where
  "auditPreviousJobs w c s0 =
     (let s = s0\<lparr>previousJobs := Some []\<rparr>
      in gotObject w c s (getObject w s (previousJobsObject c)))"

subsection \<open>Running jobs\<close>

text \<open>
  \<open>findRunningJobs\<close>: the names that \<open>listJobs\<close> streams are the job ids.  \<open>getNextJob\<close>
  fetches them one after the other, stops at the first id that is falsy (the end of the
  array, or an empty string) and gives up at the first fetch that fails.
\<close>

fun getNextJob :: "world \<Rightarrow> string list \<Rightarrow> remote_job list \<Rightarrow> jserror + remote_job list" where
  "getNextJob w [] jobObjs = Inr jobObjs"
| "getNextJob w (jid # rest) jobObjs =
     (if jid = [] then Inr jobObjs
      else
        (case getJob w jid of
           Inl err3 \<Rightarrow> Inl err3
         | Inr j \<Rightarrow> getNextJob w rest (jobObjs @ [j])))"

definition checkResults :: "remote_job list \<Rightarrow> jserror + remote_job option" where
  "checkResults jobObjs =
     (let runningJobs = filter (\<lambda>j. rj_state j \<noteq> ''done'') jobObjs
      in case runningJobs of
           [] \<Rightarrow> Inr None
         | [j] \<Rightarrow> Inr (Some j)
         | _ \<Rightarrow> Inl (Error ''more than one job with name found''))"

definition findRunningJobs :: "world \<Rightarrow> opts \<Rightarrow> jserror + remote_job option" where
  "findRunningJobs w c =
     (case listJobs w (jobName c) of
        Inl err \<Rightarrow> Inl err
      | Inr jobs \<Rightarrow>
          (case getNextJob w jobs [] of
             Inl err3 \<Rightarrow> Inl err3
           | Inr jobObjs \<Rightarrow> checkResults jobObjs))"

definition alreadyRunning :: jserror where
  "alreadyRunning = JSError ''Error'' ''Job Already running'' None (Some True) None"

text \<open>
  \<open>Math.round(now / 1000 - started / 1000)\<close>, computed here on the exact difference
  (the source subtracts two floating point quotients).
\<close>

definition checkRunningJobs :: "world \<Rightarrow> opts \<Rightarrow> state \<Rightarrow> outcome \<times> state" where
  "checkRunningJobs w c s =
     (case findRunningJobs w c of
        Inl err \<Rightarrow> (Fail err, s)
      | Inr None \<Rightarrow> (Continue, s)
      | Inr (Some j) \<Rightarrow>
          if \<not> rj_inputDone j
          then
            ((case cancelJob w (rj_id j) of None \<Rightarrow> Continue | Some err2 \<Rightarrow> Fail err2),
             emit (CancelJob (rj_id j)) s)
          else
            (Fail alreadyRunning,
             s\<lparr>audit := (audit s)
                 \<lparr>currentJobSecondsRunning :=
                    Some (roundSeconds (now_check w - rj_timeCreated j))\<rparr>\<rparr>))"

subsection \<open>Directories and the asset\<close>

fun mkdirs :: "world \<Rightarrow> string list \<Rightarrow> state \<Rightarrow> outcome \<times> state" where
  "mkdirs w [] s = (Continue, s)"
| "mkdirs w (dir # rest) s =
     (case mkdir_error w dir of
        None \<Rightarrow> mkdirs w rest (emit (Mkdir dir) s)
      | Some err \<Rightarrow> (Fail err, emit (Mkdir dir) s))"

definition setupDirectories :: "world \<Rightarrow> opts \<Rightarrow> state \<Rightarrow> outcome \<times> state" where
  "setupDirectories w c s =
     (let d0 = (case opts_directories s of None \<Rightarrow> [] | Some ds \<Rightarrow> ds);
          d1 = (if jobRoot c \<notin> set d0 then d0 @ [jobRoot c] else d0);
          d2 = (case assetObject c of
                  None \<Rightarrow> d1
                | Some a \<Rightarrow>
                    if a = [] then d1
                    else if path_dirname w a \<notin> set d1 then d1 @ [path_dirname w a] else d1);
          d3 = sort d2
      in mkdirs w d3 (s\<lparr>opts_directories := Some d3\<rparr>))"

definition setupAssetObject :: "world \<Rightarrow> opts \<Rightarrow> state \<Rightarrow> outcome \<times> state" where
  "setupAssetObject w c s =
     (case assetFile c of
        None \<Rightarrow> (Continue, s)
      | Some f \<Rightarrow>
          (case assetObject c of
             None \<Rightarrow> (Crash, s)
           | Some p \<Rightarrow>
               (case fs_stat w f of
                  Inl err2 \<Rightarrow> (Fail err2, s)
                | Inr stats \<Rightarrow>
                    if \<not> isFile stats then (Fail (Error (f @ '' isn't a file'')), s)
                    else
                      (case mantaPut w p (fs_read w f) s of
                         (None, s') \<Rightarrow> (Continue, s')
                       | (Some e, s') \<Rightarrow> (Fail e, s')))))"

subsection \<open>The stages defined inside run\<close>

definition stopIfDisabled :: "opts \<Rightarrow> state \<Rightarrow> outcome \<times> state" where
  "stopIfDisabled c s =
     (if forceRun c then (Continue, s)
      else if disableAllJobs c then (Fail (VError jobDisabled ''all jobs are disabled''), s)
      else if jobEnabled c = Some False
      then (Fail (VError jobDisabled (jobName c @ '' is disabled'')), s)
      else (Continue, s))"

definition noObjects :: jserror where
  "noObjects = JSError ''Error'' ''No objects provided.'' None (Some True) None"

definition invokeGetJobObjects :: "opts \<Rightarrow> state \<Rightarrow> outcome \<times> state" where
  "invokeGetJobObjects c s =
     (case getJobObjects c of
        Inl err \<Rightarrow> (Fail err, s)
      | Inr None \<Rightarrow> (Fail noObjects, s)
      | Inr (Some os) \<Rightarrow>
          if length os = 0 then (Fail noObjects, s) else (Continue, s\<lparr>objects := Some os\<rparr>))"

definition addAsset :: "string \<Rightarrow> phase \<Rightarrow> phase" where
  "addAsset a p =
     (let as = (case assets p of None \<Rightarrow> [] | Some xs \<Rightarrow> xs)
      in p\<lparr>assets := Some (if a \<notin> set as then as @ [a] else as)\<rparr>)"

definition invokeGetJobDefinition :: "opts \<Rightarrow> state \<Rightarrow> outcome \<times> state" where
  "invokeGetJobDefinition c s =
     (case getJobDefinition c of
        Inl err \<Rightarrow> (Fail err, s)
      | Inr j \<Rightarrow>
          if truthy (jd_name j) \<and> jd_name j \<noteq> Some (jobName c)
          then (Fail (Error ''Given job name doesn't match opts.jobName.''), s)
          else
            (let j1 = (if \<not> truthy (jd_name j) then j\<lparr>jd_name := Some (jobName c)\<rparr> else j);
                 j2 = (case assetObject c of
                         None \<Rightarrow> j1
                       | Some a \<Rightarrow>
                           if a = [] then j1 else j1\<lparr>phases := map (addAsset a) (phases j1)\<rparr>)
             in (Continue, s\<lparr>job := Some j2\<rparr>)))"

subsection \<open>Creating the job\<close>

text \<open>
  \<open>createMarlinJob\<close>.  \<open>assert.object(opts.job)\<close> throws when no definition was stored;
  writing into an undefined \<open>opts.previousJobs\<close> and reading the length of undefined
  \<open>objects\<close> throw too (the pipeline of \<open>run\<close> sets all three before this stage).
\<close>

definition createMarlinJob :: "world \<Rightarrow> opts \<Rightarrow> state \<Rightarrow> outcome \<times> state" where
  "createMarlinJob w c s =
     (case job s of
        None \<Rightarrow> (Crash, s)
      | Some j \<Rightarrow>
          if noJobStart c = Some True then (Continue, s)
          else
            (case createJob w j of
               Inl err \<Rightarrow> (Fail err, emit (CreateJob j) s)
             | Inr newId \<Rightarrow>
                 (case previousJobs s of
                    None \<Rightarrow> (Crash, emit (CreateJob j) s)
                  | Some pJobs \<Rightarrow>
                      (let s1 = (emit (CreateJob j) s)
                                  \<lparr>jobId := Some newId,
                                   previousJobs := Some (AList.update newId
                                     \<lparr>timeCreated = now_create w, audited = False\<rparr> pJobs)\<rparr>
                       in case objects s of
                            None \<Rightarrow> (Crash, s1)
                          | Some os \<Rightarrow>
                              (case addJobKey w newId os of
                                 Some err2 \<Rightarrow> (Fail err2, emit (AddJobKey newId os) s1)
                               | None \<Rightarrow>
                                   (Continue,
                                    (emit (AddJobKey newId os) s1)
                                      \<lparr>audit := (audit s1)
                                         \<lparr>numberOfObjects := Some (length os),
                                          startedJob := 1\<rparr>\<rparr>))))))"

subsection \<open>The run\<close>

text \<open>
  \<open>recordJobs\<close> writes the whole ledger to its object; \<open>assert.object\<close> throws when
  \<open>opts.previousJobs\<close> was never set.
\<close>

definition recordJobs :: "world \<Rightarrow> opts \<Rightarrow> state \<Rightarrow> outcome \<times> state" where
  "recordJobs w c s =
     (case previousJobs s of
        None \<Rightarrow> (Crash, s)
      | Some pJobs \<Rightarrow>
          (case mantaPut w (previousJobsObject c) (JSON_stringify pJobs) s of
             (None, s') \<Rightarrow> (Continue, s')
           | (Some err2, s') \<Rightarrow> (Fail err2, s')))"

definition writeAuditRecord :: "world \<Rightarrow> opts \<Rightarrow> state \<Rightarrow> state" where
  "writeAuditRecord w c s =
     (if noJobStart c = None \<or> noJobStart c = Some False
      then
        (let a = (audit s)\<lparr>endTime := Some (now_end w),
                            cronRunMillis := Some (now_end w - startTime (audit s))\<rparr>
         in emit (InvocationAudit a) (s\<lparr>audit := a\<rparr>))
      else s)"

definition stages :: "world \<Rightarrow> opts \<Rightarrow> (state \<Rightarrow> outcome \<times> state) list" where
  "stages w c =
     [stopIfDisabled c,
      auditPreviousJobs w c,
      checkRunningJobs w c,
      setupDirectories w c,
      setupAssetObject w c,
      invokeGetJobObjects c,
      invokeGetJobDefinition c,
      createMarlinJob w c]"

text \<open>The state in which \<open>run\<close> starts the pipeline, on the object store \<open>st\<close>.\<close>

definition initial :: "world \<Rightarrow> opts \<Rightarrow> (string \<rightharpoonup> doc) \<Rightarrow> state" where
  "initial w c st =
     \<lparr>previousJobs = None, objects = None, job = None, jobId = None,
      opts_directories = directories c,
      audit = \<lparr>startedJob = 0, cronFailed = 1, startTime = now_run w,
               numberOfObjects = None, currentJobSecondsRunning = None,
               endTime = None, cronRunMillis = None\<rparr>,
      store = st, trace = []\<rparr>"

text \<open>
  The final callback of the pipeline, given the error of the pipeline (if any).  The error
  that \<open>recordJobs\<close> hands back is only logged.
\<close>

definition finish :: "world \<Rightarrow> opts \<Rightarrow> jserror option \<Rightarrow> state \<Rightarrow> state" where
  "finish w c err s =
     (if (case err of None \<Rightarrow> False | Some e \<Rightarrow> hasCauseWithName e jobDisabled)
      then emit (Callback None) (writeAuditRecord w c s)
      else
        (let s1 = (if (case err of None \<Rightarrow> False | Some e \<Rightarrow> shouldNotFatal e = None)
                   then s
                   else s\<lparr>audit := (audit s)\<lparr>cronFailed := 0\<rparr>\<rparr>)
         in case recordJobs w c s1 of
              (Crash, s2) \<Rightarrow> s2
            | (Continue, s2) \<Rightarrow> emit (Callback err) (writeAuditRecord w c s2)
            | (Fail err2, s2) \<Rightarrow> emit (Callback err) (writeAuditRecord w c s2)))"

definition run :: "world \<Rightarrow> opts \<Rightarrow> (string \<rightharpoonup> doc) \<Rightarrow> state" where
  "run w c st =
     (case pipeline (stages w c) (initial w c st) of
        (Continue, s) \<Rightarrow> finish w c None s
      | (Fail err, s) \<Rightarrow> finish w c (Some err) s
      | (Crash, s) \<Rightarrow> s)"

section \<open>Notions used to state the properties\<close>

text \<open>The pipeline ended with an error that the final callback takes for \<open>JobDisabled\<close>.\<close>

definition isJobDisabled :: "outcome \<Rightarrow> bool" where
  "isJobDisabled r = (case r of Fail e \<Rightarrow> hasCauseWithName e jobDisabled | _ \<Rightarrow> False)"

definition errorOf :: "outcome \<Rightarrow> jserror option" where
  "errorOf r = (case r of Fail e \<Rightarrow> Some e | _ \<Rightarrow> None)"

text \<open>The invocation audit records that a run ending in state \<open>s\<close> logged: one or none.\<close>

definition auditRecord :: "opts \<Rightarrow> state \<Rightarrow> event list" where
  "auditRecord c s =
     (if noJobStart c = None \<or> noJobStart c = Some False then [InvocationAudit (audit s)] else [])"

text \<open>Events of the stages, as opposed to those of the final callback.\<close>

definition isStageEvent :: "event \<Rightarrow> bool" where
  "isStageEvent e = (case e of InvocationAudit a \<Rightarrow> False | Callback x \<Rightarrow> False | _ \<Rightarrow> True)"

text \<open>
  The stages after the ledger was read.  They leave \<open>opts.previousJobs\<close> defined and
  log no invocation record; \<open>settled\<close> is that invariant.
\<close>

definition laterStages :: "world \<Rightarrow> opts \<Rightarrow> (state \<Rightarrow> outcome \<times> state) list" where
  "laterStages w c =
     [checkRunningJobs w c, setupDirectories w c, setupAssetObject w c,
      invokeGetJobObjects c, invokeGetJobDefinition c, createMarlinJob w c]"

definition settled :: "state \<Rightarrow> bool" where
  "settled s = (previousJobs s \<noteq> None \<and> list_all isStageEvent (trace s))"

text \<open>Two more invariants of the stages: none clears \<open>cronFailed\<close>, and none but the last
  records a started job.\<close>

definition cronPending :: "state \<Rightarrow> bool" where
  "cronPending s = (cronFailed (audit s) = 1)"

definition notStarted :: "state \<Rightarrow> bool" where
  "notStarted s = (startedJob (audit s) = 0 \<and> numberOfObjects (audit s) = None)"

text \<open>
  Notions for the reconciliation.  \<open>okIds ks ops\<close> are the ids \<open>ks[i]\<close> whose operation
  \<open>ops[i]\<close> has status \<open>ok\<close>, and \<open>classifiedOk\<close> those of one reconciliation: the
  entries that its first loop marks.  \<open>markRecord ids\<close> sets the flag of an entry whose id
  is among \<open>ids\<close>.  An entry is \<open>expired\<close> when its age in rounded seconds is above
  \<open>MAX_SECONDS_IN_AUDIT_OBJECT\<close>, the test that puts its id into \<open>jobsToDelete\<close>.
  \<open>ownOk w c k\<close> says that the job with id \<open>k\<close> itself passes \<open>auditJob\<close>.
  \<open>ledgerAfter\<close> is the ledger that a reconciliation leaves in \<open>opts.previousJobs\<close>.
\<close>

definition okIds :: "string list \<Rightarrow> (jserror + 'b) list \<Rightarrow> string list" where
  "okIds ks ops = map fst (filter (\<lambda>(k, op). isOk op) (zip ks ops))"

definition classifiedOk :: "world \<Rightarrow> opts \<Rightarrow> ledger \<Rightarrow> string list" where
  "classifiedOk w c pJobs =
     okIds (jobsToAudit pJobs)
       (operations (auditJob c) (successes (getJob w) (getJob_done w) (jobsToAudit pJobs)))"

definition markRecord :: "string list \<Rightarrow> string \<times> job_record \<Rightarrow> string \<times> job_record" where
  "markRecord ids = (\<lambda>(k, r). (k, if k \<in> set ids then r\<lparr>audited := True\<rparr> else r))"

definition expired :: "int \<Rightarrow> job_record \<Rightarrow> bool" where
  "expired now r = (secondsSinceDone now r > MAX_SECONDS_IN_AUDIT_OBJECT)"

definition ownOk :: "world \<Rightarrow> opts \<Rightarrow> string \<Rightarrow> bool" where
  "ownOk w c k = (case getJob w k of Inl e \<Rightarrow> False | Inr j \<Rightarrow> isOk (auditJob c j))"

definition ledgerAfter :: "world \<Rightarrow> opts \<Rightarrow> ledger \<Rightarrow> ledger" where
  "ledgerAfter w c pJobs = fst (snd (reconcile w c pJobs))"

section \<open>Examples\<close>

text \<open>A quiet world: no remote call fails, the job service knows no job.\<close>

definition w0 :: world where
  "w0 = \<lparr>getObject_error = (\<lambda>p. None), put_error = (\<lambda>p. None), mkdir_error = (\<lambda>p. None),
     listJobs = (\<lambda>n. Inr []), getJob = (\<lambda>i. Inl (Error ''no such job'')),
     getJob_done = (\<lambda>i. 0), cancelJob = (\<lambda>i. None), createJob = (\<lambda>j. Inr ''job-2''),
     addJobKey = (\<lambda>i os. None), fs_stat = (\<lambda>f. Inl (Error ''ENOENT'')),
     fs_read = (\<lambda>f. NotJSON ''x''), path_dirname = (\<lambda>p. ''/''),
     now_run = 1000, now_audit = 1001, now_check = 1002, now_create = 1003, now_end = 1004\<rparr>"

definition c0 :: opts where
  "c0 = \<lparr>jobName = ''gc'', jobRoot = ''/gc'', previousJobsObject = ''/gc/jobs.json'',
     forceRun = False, disableAllJobs = False, jobEnabled = None, noJobStart = None,
     directories = None, assetFile = None, assetObject = None,
     getJobObjects = Inr (Some [''/o1'']),
     getJobDefinition = Inr \<lparr>jd_name = None, phases = [\<lparr>exec = ''cat'', assets = None\<rparr>]\<rparr>,
     preAudit = None\<rparr>"

text \<open>
  The job of the spec's scenario A: created 2024-01-01T00:00:00Z, done one hour later,
  no errors.
\<close>

definition job1_done :: remote_job where
  "job1_done = \<lparr>rj_id = ''job-1'', rj_state = ''done'', rj_inputDone = True,
     rj_timeCreated = 1704067200000, rj_timeDone = 1704070800000,
     rj_stats = Some \<lparr>errors = Some 0\<rparr>\<rparr>"

text \<open>The global kill switch is set.\<close>

definition c_disabled :: opts where
  "c_disabled = c0\<lparr>disableAllJobs := True\<rparr>"

text \<open>A dry run (\<open>noJobStart\<close>), and an asset file configured without an asset object.\<close>

definition c_nostart :: opts where
  "c_nostart = c0\<lparr>noJobStart := Some True\<rparr>"

definition c_noasset :: opts where
  "c_noasset = c0\<lparr>assetFile := Some ''/mola.tar.gz''\<rparr>"

text \<open>The caller has no input objects.\<close>

definition c_noobjects :: opts where
  "c_noobjects = c0\<lparr>getJobObjects := Inr (Some [])\<rparr>"

text \<open>An object store whose ledger object does not parse.\<close>

definition st_corrupt :: "string \<rightharpoonup> doc" where
  "st_corrupt = [''/gc/jobs.json'' \<mapsto> NotJSON ''{'']"

text \<open>A world in which the job service refuses the input objects.\<close>

definition w_attach :: world where
  "w_attach = w0\<lparr>addJobKey := (\<lambda>i os. Some (Error ''attach failed''))\<rparr>"

text \<open>
  A job of the same name is still running with its input sealed; the check runs 90.4
  seconds after the job was created.
\<close>

definition w_running :: world where
  "w_running = w0\<lparr>listJobs := (\<lambda>n. if n = ''gc'' then Inr [''job-1''] else Inr []),
     getJob := (\<lambda>i. if i = ''job-1''
                    then Inr (job1_done\<lparr>rj_state := ''running''\<rparr>)
                    else Inl (Error ''no such job'')),
     now_check := 1704067290400\<rparr>"


text \<open>
  Eight days after job-1 was created (2024-01-09T00:00:00Z), with job-1 still running;
  a ledger that holds job-1 as audited, and one that holds it as not audited (the spec's
  scenario E).
\<close>

definition w_old :: world where
  "w_old = w0\<lparr>now_audit := 1704758400000,
     getJob := (\<lambda>i. if i = ''job-1'' then Inr (job1_done\<lparr>rj_state := ''running''\<rparr>)
                    else Inl (Error ''no such job''))\<rparr>"

definition ledger_old_audited :: ledger where
  "ledger_old_audited = [(''job-1'', \<lparr>timeCreated = 1704067200000, audited = True\<rparr>)]"

definition ledger_old_unaudited :: ledger where
  "ledger_old_unaudited = [(''job-1'', \<lparr>timeCreated = 1704067200000, audited = False\<rparr>)]"

text \<open>
  Two jobs to audit: A is still running, B is done, and the status of B arrives before
  the status of A.
\<close>

definition jobA :: remote_job where
  "jobA = \<lparr>rj_id = ''A'', rj_state = ''running'', rj_inputDone = True,
     rj_timeCreated = 0, rj_timeDone = 0, rj_stats = None\<rparr>"

definition jobB :: remote_job where
  "jobB = \<lparr>rj_id = ''B'', rj_state = ''done'', rj_inputDone = True,
     rj_timeCreated = 0, rj_timeDone = 500, rj_stats = None\<rparr>"

definition w_AB :: world where
  "w_AB = w0\<lparr>getJob := (\<lambda>i. if i = ''A'' then Inr jobA else if i = ''B'' then Inr jobB
                             else Inl (Error ''no such job'')),
     getJob_done := (\<lambda>i. if i = ''A'' then 2 else 1)\<rparr>"

definition ledger_AB :: ledger where
  "ledger_AB = [(''A'', \<lparr>timeCreated = 0, audited = False\<rparr>),
                (''B'', \<lparr>timeCreated = 0, audited = False\<rparr>)]"

section \<open>Properties\<close>

subsection \<open>Audit classification\<close>



subsection \<open>The structure of a run\<close>

lemmas stage_defs =
  stages_def stopIfDisabled_def auditPreviousJobs_def gotObject_def checkRunningJobs_def
  setupDirectories_def setupAssetObject_def invokeGetJobObjects_def
  invokeGetJobDefinition_def createMarlinJob_def findRunningJobs_def checkResults_def
  getObject_def mantaPut_def emit_def initial_def JSON_parse_def JSON_stringify_def
  truthy_def Let_def

lemmas run_defs =
  run_def finish_def recordJobs_def writeAuditRecord_def

lemma pipeline_append:
  "pipeline (fs @ gs) s =
     (case pipeline fs s of (Continue, s') \<Rightarrow> pipeline gs s' | (Fail e, s') \<Rightarrow> (Fail e, s')
      | (Crash, s') \<Rightarrow> (Crash, s'))"
  by (induction fs arbitrary: s) (auto split: prod.splits outcome.splits)

lemma pipeline_preserves:
  assumes "\<And>f s. f \<in> set fs \<Longrightarrow> P s \<Longrightarrow> P (snd (f s))" and "P s"
  shows "P (snd (pipeline fs s))"
  using assms
proof (induction fs arbitrary: s)
  case Nil
  then show ?case by simp
next
  case (Cons f fs)
  have "P (snd (f s))" using Cons.prems by simp
  then show ?case
    using Cons.IH [of "snd (f s)"] Cons.prems(1)
    by (cases "f s"; cases "fst (f s)") (auto split: outcome.splits)
qed

lemma mkdirs_settled: "settled s \<Longrightarrow> settled (snd (mkdirs w ds s))"
  by (induction ds arbitrary: s)
     (auto simp: settled_def emit_def isStageEvent_def split: option.splits)

lemma setupDirectories_settled: "settled s \<Longrightarrow> settled (snd (setupDirectories w c s))"
  unfolding setupDirectories_def Let_def
  by (rule mkdirs_settled) (simp add: settled_def)

lemma checkRunningJobs_settled: "settled s \<Longrightarrow> settled (snd (checkRunningJobs w c s))"
  by (auto simp: checkRunningJobs_def settled_def emit_def isStageEvent_def
      split: sum.splits option.splits)

lemma setupAssetObject_settled: "settled s \<Longrightarrow> settled (snd (setupAssetObject w c s))"
  by (auto simp: setupAssetObject_def mantaPut_def settled_def emit_def isStageEvent_def
      split: sum.splits option.splits)

lemma invokeGetJobObjects_settled: "settled s \<Longrightarrow> settled (snd (invokeGetJobObjects c s))"
  by (auto simp: invokeGetJobObjects_def settled_def split: sum.splits option.splits)

lemma invokeGetJobDefinition_settled:
  "settled s \<Longrightarrow> settled (snd (invokeGetJobDefinition c s))"
  by (auto simp: invokeGetJobDefinition_def settled_def Let_def split: sum.splits option.splits)

lemma createMarlinJob_settled: "settled s \<Longrightarrow> settled (snd (createMarlinJob w c s))"
  by (auto simp: createMarlinJob_def settled_def emit_def isStageEvent_def Let_def
      split: sum.splits option.splits)

lemma auditPreviousJobs_settled:
  "list_all isStageEvent (trace s) \<Longrightarrow> settled (snd (auditPreviousJobs w c s))"
  by (auto simp: auditPreviousJobs_def gotObject_def settled_def Let_def isStageEvent_def list_all_iff
      split: sum.splits option.splits prod.splits)

lemma laterStages_settled: "settled s \<Longrightarrow> settled (snd (pipeline (laterStages w c) s))"
  by (rule pipeline_preserves [where P = settled])
     (auto simp: laterStages_def checkRunningJobs_settled setupDirectories_settled
        setupAssetObject_settled invokeGetJobObjects_settled invokeGetJobDefinition_settled
        createMarlinJob_settled)

lemma stages_unfold:
  "pipeline (stages w c) s =
     (case stopIfDisabled c s of
        (Continue, s1) \<Rightarrow>
          (case auditPreviousJobs w c s1 of
             (Continue, s2) \<Rightarrow> pipeline (laterStages w c) s2
           | (Fail e, s2) \<Rightarrow> (Fail e, s2)
           | (Crash, s2) \<Rightarrow> (Crash, s2))
      | (Fail e, s1) \<Rightarrow> (Fail e, s1)
      | (Crash, s1) \<Rightarrow> (Crash, s1))"
  by (simp add: stages_def laterStages_def split: prod.splits outcome.splits)

lemma stopIfDisabled_cases:
  "stopIfDisabled c s = (Continue, s) \<or>
   (\<exists>msg. stopIfDisabled c s = (Fail (VError jobDisabled msg), s))"
  by (auto simp: stopIfDisabled_def)

lemma VError_jobDisabled [simp]: "hasCauseWithName (VError jobDisabled msg) jobDisabled"
  by (simp add: VError_def)

text \<open>
  Unless the pipeline ends with \<open>JobDisabled\<close>, the ledger was read (or reset) before it
  ended, so \<open>recordJobs\<close> finds \<open>opts.previousJobs\<close> defined.
\<close>

lemma pipeline_settled:
  assumes "pipeline (stages w c) (initial w c st) = (r, s)" and "\<not> isJobDisabled r"
  shows "settled s"
proof -
  have t0: "list_all isStageEvent (trace (initial w c st))" by (simp add: initial_def)
  from stopIfDisabled_cases [of c "initial w c st"] show ?thesis
  proof
    assume a: "stopIfDisabled c (initial w c st) = (Continue, initial w c st)"
    have s2: "settled (snd (auditPreviousJobs w c (initial w c st)))"
      using t0 by (rule auditPreviousJobs_settled)
    show ?thesis
    proof (cases "auditPreviousJobs w c (initial w c st)")
      case (Pair r2 s2')
      with s2 have st2: "settled s2'" by simp
      show ?thesis
      proof (cases r2)
        case Continue
        with Pair a assms(1) have "pipeline (laterStages w c) s2' = (r, s)"
          by (simp add: stages_unfold)
        with laterStages_settled [OF st2, of w c] show ?thesis by simp
      next
        case (Fail e)
        with Pair a assms(1) st2 show ?thesis by (simp add: stages_unfold)
      next
        case Crash
        with Pair a assms(1) st2 show ?thesis by (simp add: stages_unfold)
      qed
    qed
  next
    assume "\<exists>msg. stopIfDisabled c (initial w c st)
      = (Fail (VError jobDisabled msg), initial w c st)"
    then obtain msg where
      "stopIfDisabled c (initial w c st) = (Fail (VError jobDisabled msg), initial w c st)" ..
    with assms show ?thesis by (auto simp: stages_unfold isJobDisabled_def)
  qed
qed

lemma stage_events:
  assumes "pipeline (stages w c) (initial w c st) = (r, s)"
  shows "list_all isStageEvent (trace s)"
proof (cases "isJobDisabled r")
  case False
  from pipeline_settled [OF assms False] show ?thesis by (simp add: settled_def)
next
  case True
  from stopIfDisabled_cases [of c "initial w c st"] show ?thesis
  proof
    assume a: "stopIfDisabled c (initial w c st) = (Continue, initial w c st)"
    have st2: "settled (snd (auditPreviousJobs w c (initial w c st)))"
      by (rule auditPreviousJobs_settled) (simp add: initial_def)
    have "settled (snd (pipeline (stages w c) (initial w c st)))"
      using a st2 laterStages_settled [OF st2, of w c]
      by (auto simp: stages_unfold split: prod.splits outcome.splits)
    with assms show ?thesis by (simp add: settled_def)
  next
    assume "\<exists>msg. stopIfDisabled c (initial w c st)
      = (Fail (VError jobDisabled msg), initial w c st)"
    then obtain msg where
      "stopIfDisabled c (initial w c st) = (Fail (VError jobDisabled msg), initial w c st)" ..
    with assms have "s = initial w c st" by (auto simp: stages_unfold)
    then show ?thesis by (simp add: initial_def)
  qed
qed

lemma pipeline_w0_c0:
  "pipeline (stages w0 c0) (initial w0 c0 Map.empty) =
     (Continue, snd (pipeline (stages w0 c0) (initial w0 c0 Map.empty)))"
  by (simp add: stage_defs w0_def c0_def)

subsection \<open>Finalization\<close>

text \<open>
  C1, as the code has it.  Let the pipeline end with outcome \<open>r\<close> in state \<open>s\<close> without
  a throw.  The stages themselves log no invocation record and call nothing back.  If
  \<open>r\<close> is an error with a cause named \<open>JobDisabled\<close>, the ledger is not written: the
  run logs the invocation audit record and calls back with no error.  In every other
  case (success, an error marked \<open>shouldNotFatal\<close>, a fatal error) the run first puts the
  working ledger to the ledger object, then logs the invocation audit record, then calls
  back with the error of the pipeline, whatever the put answered.  The audit record is
  logged once when \<open>noJobStart\<close> is undefined or false and not at all otherwise.
\<close>

theorem run_finalization:
  assumes "pipeline (stages w c) (initial w c st) = (r, s)" and "r \<noteq> Crash"
  shows "list_all isStageEvent (trace s) \<and>
     (if isJobDisabled r
      then trace (run w c st) = trace s @ auditRecord c (run w c st) @ [Callback None]
      else (\<exists>pJobs. previousJobs s = Some pJobs \<and>
             trace (run w c st) =
               trace s @ [Put (previousJobsObject c) (JSON_stringify pJobs)]
                 @ auditRecord c (run w c st) @ [Callback (errorOf r)]))"
proof (cases "isJobDisabled r")
  case True
  then obtain e where r: "r = Fail e" and e: "hasCauseWithName e jobDisabled"
    by (cases r) (auto simp: isJobDisabled_def)
  have "trace (run w c st) = trace s @ auditRecord c (run w c st) @ [Callback None]"
    using assms(1) r e
    by (simp add: run_def finish_def writeAuditRecord_def emit_def auditRecord_def Let_def)
  with True stage_events [OF assms(1)] show ?thesis by simp
next
  case False
  from pipeline_settled [OF assms(1) False] obtain pJobs where
    p: "previousJobs s = Some pJobs" and ev: "list_all isStageEvent (trace s)"
    by (auto simp: settled_def)
  have "trace (run w c st) =
      trace s @ [Put (previousJobsObject c) (JSON_stringify pJobs)]
        @ auditRecord c (run w c st) @ [Callback (errorOf r)]"
    using assms p False
    by (cases r)
       (auto simp: run_def finish_def recordJobs_def mantaPut_def writeAuditRecord_def
          emit_def auditRecord_def errorOf_def isJobDisabled_def Let_def
          split: option.splits)
  with False p ev show ?thesis by simp
qed

text \<open>
  A run that starts a job in the quiet world: the ledger with the new entry is put, then
  the audit record is logged, then the caller is called back without error.
\<close>

theorem run_finalization_witness:
  "fst (pipeline (stages w0 c0) (initial w0 c0 Map.empty)) \<noteq> Crash
   \<and> trace (run w0 c0 Map.empty) =
       trace (snd (pipeline (stages w0 c0) (initial w0 c0 Map.empty)))
       @ [Put ''/gc/jobs.json''
            (LedgerJSON [(''job-2'', \<lparr>timeCreated = 1003, audited = False\<rparr>)]),
          InvocationAudit (audit (run w0 c0 Map.empty)),
          Callback None]"
proof -
  have nc: "Continue \<noteq> Crash" by simp
  have p: "previousJobs (snd (pipeline (stages w0 c0) (initial w0 c0 Map.empty)))
    = Some [(''job-2'', \<lparr>timeCreated = 1003, audited = False\<rparr>)]"
    by (simp add: stage_defs w0_def c0_def)
  have n: "noJobStart c0 = None" "previousJobsObject c0 = ''/gc/jobs.json''"
    by (simp_all add: c0_def)
  from run_finalization [OF pipeline_w0_c0 nc] p n show ?thesis
    by (simp add: isJobDisabled_def auditRecord_def errorOf_def JSON_stringify_def
        pipeline_w0_c0 [THEN arg_cong, of fst, simplified])
qed

text \<open>
  With all jobs disabled the first stage fails with \<open>JobDisabled\<close>; the run then only
  logs its audit record and calls back with no error: nothing is put to the ledger
  object and the stage's error is not handed to the caller.  A dry run persists the
  ledger and calls back but logs no audit record.  When an asset file is configured
  without an asset object, the assertion of \<open>setupAssetObject\<close> throws and nothing is
  finalized.
\<close>

theorem disabled_run_skips_persistence:
  "pipeline (stages w0 c_disabled) (initial w0 c_disabled Map.empty) =
     (Fail (VError jobDisabled ''all jobs are disabled''), initial w0 c_disabled Map.empty)
   \<and> trace (run w0 c_disabled Map.empty) =
       [InvocationAudit \<lparr>startedJob = 0, cronFailed = 1, startTime = 1000,
          numberOfObjects = None, currentJobSecondsRunning = None,
          endTime = Some 1004, cronRunMillis = Some 4\<rparr>,
        Callback None]
   \<and> trace (run w0 c_nostart Map.empty) =
       [Mkdir ''/gc'', Put ''/gc/jobs.json'' (LedgerJSON []), Callback None]
   \<and> trace (run w0 c_noasset Map.empty) = [Mkdir ''/gc'']"
  by (simp add: stage_defs run_defs c_disabled_def c_nostart_def c_noasset_def w0_def c0_def
      VError_def jobDisabled_def)

subsection \<open>The final callback\<close>

lemma last_trace_finish:
  assumes "previousJobs s \<noteq> None
     \<or> (case err of None \<Rightarrow> False | Some e \<Rightarrow> hasCauseWithName e jobDisabled)"
  shows "last (trace (finish w c err s)) =
     Callback (if (case err of None \<Rightarrow> False | Some e \<Rightarrow> hasCauseWithName e jobDisabled)
               then None else err)"
  using assms
  by (auto simp: finish_def recordJobs_def mantaPut_def writeAuditRecord_def emit_def Let_def
      split: option.splits)

lemma cronFailed_finish:
  assumes "previousJobs s \<noteq> None" "cronFailed (audit s) = 1"
  shows "cronFailed (audit (finish w c (Some e) s)) =
     (if hasCauseWithName e jobDisabled \<or> shouldNotFatal e = None then 1 else 0)"
  using assms
  by (auto simp: finish_def recordJobs_def mantaPut_def writeAuditRecord_def emit_def Let_def
      split: option.splits)

lemma finish_persists:
  assumes "previousJobs s = Some pJobs"
      and "\<not> (case err of None \<Rightarrow> False | Some e \<Rightarrow> hasCauseWithName e jobDisabled)"
  shows "trace (finish w c err s) =
           trace s @ [Put (previousJobsObject c) (JSON_stringify pJobs)]
             @ auditRecord c (finish w c err s) @ [Callback err]"
    and "store (finish w c err s) =
           (if put_error w (previousJobsObject c) = None
            then (store s)(previousJobsObject c \<mapsto> JSON_stringify pJobs) else store s)"
    and "cronFailed (audit (finish w c err s)) =
           (if (case err of None \<Rightarrow> False | Some e \<Rightarrow> shouldNotFatal e = None)
            then cronFailed (audit s) else 0)"
    and "startedJob (audit (finish w c err s)) = startedJob (audit s)"
    and "numberOfObjects (audit (finish w c err s)) = numberOfObjects (audit s)"
    and "previousJobs (finish w c err s) = previousJobs s"
  using assms
  by (auto simp: finish_def recordJobs_def mantaPut_def writeAuditRecord_def emit_def
      auditRecord_def Let_def split: option.splits)

lemma mkdirs_cron: "cronPending s \<Longrightarrow> cronPending (snd (mkdirs w ds s))"
  by (induction ds arbitrary: s) (auto simp: cronPending_def emit_def split: option.splits)

lemma stages_cron:
  assumes "f \<in> set (stages w c)" "cronPending s" shows "cronPending (snd (f s))"
proof -
  have "cronPending (snd (setupDirectories w c s))"
    unfolding setupDirectories_def Let_def
    by (rule mkdirs_cron) (use assms(2) in \<open>simp add: cronPending_def\<close>)
  then show ?thesis
    using assms
    by (auto simp: stages_def stopIfDisabled_def auditPreviousJobs_def gotObject_def checkRunningJobs_def
        setupAssetObject_def invokeGetJobObjects_def invokeGetJobDefinition_def
        createMarlinJob_def mantaPut_def emit_def cronPending_def Let_def
        split: sum.splits option.splits prod.splits)
qed

lemma pipeline_cron:
  assumes "pipeline (stages w c) (initial w c st) = (r, s)"
  shows "cronFailed (audit s) = 1"
proof -
  have "cronPending (snd (pipeline (stages w c) (initial w c st)))"
    by (rule pipeline_preserves [where P = cronPending])
       (auto simp: stages_cron, simp add: cronPending_def initial_def)
  with assms show ?thesis by (simp add: cronPending_def)
qed

text \<open>
  C3, as the code has it.  When a stage fails, no later stage runs: the pipeline ends
  with that stage's error and state.  If the error has a cause named \<open>JobDisabled\<close>
  (as the errors of the disable check have), the caller is called back with no error.
  Any other error is handed to the caller unchanged: the errors for ``no input objects''
  and ``job already running'' carry \<open>shouldNotFatal\<close> and reach the caller with
  \<open>cronFailed = 0\<close> in the audit record; an error without that mark reaches the caller
  with \<open>cronFailed = 1\<close>.
\<close>

theorem run_error_propagation:
  assumes "stages w c = fs @ f # gs"
      and "pipeline fs (initial w c st) = (Continue, s1)"
      and "f s1 = (Fail e, s)"
  shows "pipeline (stages w c) (initial w c st) = (Fail e, s)
     \<and> last (trace (run w c st)) =
         Callback (if hasCauseWithName e jobDisabled then None else Some e)
     \<and> ((\<exists>msg. e = VError jobDisabled msg) \<longrightarrow> last (trace (run w c st)) = Callback None)
     \<and> (e = noObjects \<or> e = alreadyRunning \<longrightarrow>
          last (trace (run w c st)) = Callback (Some e) \<and> cronFailed (audit (run w c st)) = 0)
     \<and> (shouldNotFatal e = None \<and> \<not> hasCauseWithName e jobDisabled \<longrightarrow>
          last (trace (run w c st)) = Callback (Some e) \<and> cronFailed (audit (run w c st)) = 1)"
proof -
  have p: "pipeline (stages w c) (initial w c st) = (Fail e, s)"
    using assms by (simp add: pipeline_append)
  have r: "run w c st = finish w c (Some e) s" using p by (simp add: run_def)
  have pj: "previousJobs s \<noteq> None \<or> hasCauseWithName e jobDisabled"
    using pipeline_settled [OF p] by (auto simp: isJobDisabled_def settled_def)
  have l: "last (trace (run w c st)) =
         Callback (if hasCauseWithName e jobDisabled then None else Some e)"
    unfolding r using last_trace_finish [of s "Some e" w c] pj by simp
  have cf: "\<not> hasCauseWithName e jobDisabled \<Longrightarrow> cronFailed (audit (run w c st)) =
     (if shouldNotFatal e = None then 1 else 0)"
    unfolding r using cronFailed_finish [of s w c e] pj pipeline_cron [OF p] by simp
  have n: "\<not> hasCauseWithName noObjects jobDisabled" "shouldNotFatal noObjects = Some True"
    "\<not> hasCauseWithName alreadyRunning jobDisabled" "shouldNotFatal alreadyRunning = Some True"
    by (simp_all add: noObjects_def alreadyRunning_def jobDisabled_def)
  show ?thesis using p l cf n by auto
qed

text \<open>
  The sixth stage fails for want of input objects: the last two stages do not run, and
  the caller receives the error.
\<close>

theorem run_error_propagation_witness:
  "pipeline (stages w0 c_noobjects) (initial w0 c_noobjects Map.empty) =
     (Fail noObjects,
      snd (pipeline (take 5 (stages w0 c_noobjects)) (initial w0 c_noobjects Map.empty)))
   \<and> last (trace (run w0 c_noobjects Map.empty)) = Callback (Some noObjects)
   \<and> cronFailed (audit (run w0 c_noobjects Map.empty)) = 0"
proof -
  let ?c = c_noobjects
  let ?fs = "take 5 (stages w0 ?c)"
  let ?s1 = "snd (pipeline ?fs (initial w0 ?c Map.empty))"
  have a: "stages w0 ?c = ?fs @ invokeGetJobObjects ?c # drop 6 (stages w0 ?c)"
    by (simp add: stages_def)
  have b: "pipeline ?fs (initial w0 ?c Map.empty) = (Continue, ?s1)"
    by (simp add: stage_defs w0_def c0_def c_noobjects_def)
  have c: "invokeGetJobObjects ?c ?s1 = (Fail noObjects, ?s1)"
    by (simp add: invokeGetJobObjects_def c_noobjects_def)
  from run_error_propagation [OF a b c] show ?thesis
    by (simp add: noObjects_def jobDisabled_def)
qed

text \<open>
  The claim says that the callback receives no error when the run ends for want of input
  objects or because the job is already running.  It receives the error in both cases.
\<close>

theorem no_objects_error_reaches_caller:
  "trace (run w0 c_noobjects Map.empty) =
     [Mkdir ''/gc'', Put ''/gc/jobs.json'' (LedgerJSON []),
      InvocationAudit \<lparr>startedJob = 0, cronFailed = 0, startTime = 1000,
        numberOfObjects = None, currentJobSecondsRunning = None,
        endTime = Some 1004, cronRunMillis = Some 4\<rparr>,
      Callback (Some noObjects)]
   \<and> trace (run w_running c0 Map.empty) =
     [Put ''/gc/jobs.json'' (LedgerJSON []),
      InvocationAudit \<lparr>startedJob = 0, cronFailed = 0, startTime = 1000,
        numberOfObjects = None, currentJobSecondsRunning = Some 90,
        endTime = Some 1004, cronRunMillis = Some 4\<rparr>,
      Callback (Some alreadyRunning)]"
  by (simp add: stage_defs run_defs c_noobjects_def w_running_def w0_def c0_def job1_done_def
      noObjects_def alreadyRunning_def jobDisabled_def roundSeconds_def)

subsection \<open>A ledger that does not parse\<close>

text \<open>
  C2, as the code has it.  The run is not disabled, the ledger object can be fetched and
  its content does not parse.  Then \<open>auditPreviousJobs\<close> fails with the parse error
  while \<open>opts.previousJobs\<close> is the empty object it was reset to; no later stage runs,
  so nothing is cancelled, created or uploaded.  Finalization still runs: the empty
  ledger is put to the ledger object, the audit record (with \<open>cronFailed = 1\<close>) is
  logged and the caller receives the parse error.  If that put succeeds, the stored
  document is replaced by the empty ledger; if it fails, the store is unchanged.
\<close>

theorem unparseable_ledger_run:
  assumes "forceRun c \<or> (\<not> disableAllJobs c \<and> jobEnabled c \<noteq> Some False)"
      and "getObject_error w (previousJobsObject c) = None"
      and "st (previousJobsObject c) = Some (NotJSON raw)"
  shows "trace (run w c st) =
           [Put (previousJobsObject c) (LedgerJSON [])] @ auditRecord c (run w c st)
             @ [Callback (Some SyntaxError)]
     \<and> cronFailed (audit (run w c st)) = 1
     \<and> store (run w c st) =
         (if put_error w (previousJobsObject c) = None
          then st(previousJobsObject c \<mapsto> LedgerJSON []) else st)"
proof -
  have s1: "stopIfDisabled c (initial w c st) = (Continue, initial w c st)"
    using assms(1) by (auto simp: stopIfDisabled_def)
  have s2: "auditPreviousJobs w c (initial w c st)
      = (Fail SyntaxError, (initial w c st)\<lparr>previousJobs := Some []\<rparr>)"
    using assms(2,3)
    by (simp add: auditPreviousJobs_def gotObject_def getObject_def JSON_parse_def initial_def)
  have p: "pipeline (stages w c) (initial w c st)
      = (Fail SyntaxError, (initial w c st)\<lparr>previousJobs := Some []\<rparr>)"
    by (simp add: stages_unfold s1 s2)
  have r: "run w c st
      = finish w c (Some SyntaxError) ((initial w c st)\<lparr>previousJobs := Some []\<rparr>)"
    by (simp add: run_def p)
  have nd: "\<not> (case Some SyntaxError of None \<Rightarrow> False
      | Some e \<Rightarrow> hasCauseWithName e jobDisabled)"
    by (simp add: SyntaxError_def jobDisabled_def)
  have pj: "previousJobs ((initial w c st)\<lparr>previousJobs := Some []\<rparr>) = Some []" by simp
  show ?thesis
    unfolding r
    by (simp add: finish_persists [OF pj nd] JSON_stringify_def)
       (simp add: initial_def SyntaxError_def)
qed

theorem unparseable_ledger_run_witness:
  "trace (run w0 c0 st_corrupt) =
     [Put ''/gc/jobs.json'' (LedgerJSON []),
      InvocationAudit (audit (run w0 c0 st_corrupt)),
      Callback (Some SyntaxError)]
   \<and> cronFailed (audit (run w0 c0 st_corrupt)) = 1"
proof -
  have a: "forceRun c0 \<or> (\<not> disableAllJobs c0 \<and> jobEnabled c0 \<noteq> Some False)"
    by (simp add: c0_def)
  have b: "getObject_error w0 (previousJobsObject c0) = None" by (simp add: w0_def)
  have c: "st_corrupt (previousJobsObject c0) = Some (NotJSON ''{'')"
    by (simp add: st_corrupt_def c0_def)
  have n: "noJobStart c0 = None" "previousJobsObject c0 = ''/gc/jobs.json''"
    by (simp_all add: c0_def)
  from unparseable_ledger_run [where c = c0 and w = w0 and st = st_corrupt, OF a b c] n
  show ?thesis by (simp add: auditRecord_def)
qed

text \<open>
  The claim says the stored document is left unchanged.  After the run the ledger object
  holds the empty ledger instead of the document that did not parse.
\<close>

theorem unparseable_ledger_overwritten:
  "st_corrupt ''/gc/jobs.json'' = Some (NotJSON ''{'')
   \<and> store (run w0 c0 st_corrupt) ''/gc/jobs.json'' = Some (LedgerJSON [])"
  by (simp add: stage_defs run_defs st_corrupt_def w0_def c0_def SyntaxError_def jobDisabled_def)

text \<open>
  What C2 shows for a document that does not parse also happens when the ledger object
  cannot be fetched for another reason than its absence: the run fails with that error
  and finalization puts the empty ledger.
\<close>

lemma unreadable_ledger_run:
  assumes "forceRun c \<or> (\<not> disableAllJobs c \<and> jobEnabled c \<noteq> Some False)"
      and "getObject_error w (previousJobsObject c) = Some e"
      and "err_code e \<noteq> Some ''ResourceNotFound''"
      and "\<not> hasCauseWithName e jobDisabled"
  shows "trace (run w c st) =
           [Put (previousJobsObject c) (LedgerJSON [])] @ auditRecord c (run w c st)
             @ [Callback (Some e)]
     \<and> store (run w c st) =
         (if put_error w (previousJobsObject c) = None
          then st(previousJobsObject c \<mapsto> LedgerJSON []) else st)"
proof -
  have s1: "stopIfDisabled c (initial w c st) = (Continue, initial w c st)"
    using assms(1) by (auto simp: stopIfDisabled_def)
  have s2: "auditPreviousJobs w c (initial w c st)
      = (Fail e, (initial w c st)\<lparr>previousJobs := Some []\<rparr>)"
    using assms(2,3) by (simp add: auditPreviousJobs_def gotObject_def getObject_def initial_def)
  have p: "pipeline (stages w c) (initial w c st)
      = (Fail e, (initial w c st)\<lparr>previousJobs := Some []\<rparr>)"
    by (simp add: stages_unfold s1 s2)
  have r: "run w c st = finish w c (Some e) ((initial w c st)\<lparr>previousJobs := Some []\<rparr>)"
    by (simp add: run_def p)
  have nd: "\<not> (case Some e of None \<Rightarrow> False | Some e \<Rightarrow> hasCauseWithName e jobDisabled)"
    using assms(4) by simp
  have pj: "previousJobs ((initial w c st)\<lparr>previousJobs := Some []\<rparr>) = Some []" by simp
  show ?thesis
    unfolding r
    by (simp add: finish_persists [OF pj nd] JSON_stringify_def) (simp add: initial_def)
qed

subsection \<open>A job whose input could not be attached\<close>

lemma mkdirs_notStarted: "notStarted s \<Longrightarrow> notStarted (snd (mkdirs w ds s))"
  by (induction ds arbitrary: s) (auto simp: notStarted_def emit_def split: option.splits)

lemma firstSeven_notStarted:
  assumes "f \<in> set (butlast (stages w c))" "notStarted s" shows "notStarted (snd (f s))"
proof -
  have "notStarted (snd (setupDirectories w c s))"
    unfolding setupDirectories_def Let_def
    by (rule mkdirs_notStarted) (use assms(2) in \<open>simp add: notStarted_def\<close>)
  then show ?thesis
    using assms
    by (auto simp: stages_def stopIfDisabled_def auditPreviousJobs_def gotObject_def checkRunningJobs_def
        setupAssetObject_def invokeGetJobObjects_def invokeGetJobDefinition_def
        mantaPut_def emit_def notStarted_def Let_def
        split: sum.splits option.splits prod.splits)
qed

lemma pipeline_notStarted:
  assumes "pipeline (butlast (stages w c)) (initial w c st) = (r, s)"
  shows "notStarted s"
proof -
  have "notStarted (snd (pipeline (butlast (stages w c)) (initial w c st)))"
    by (rule pipeline_preserves [where P = notStarted])
       (auto simp: firstSeven_notStarted, simp add: notStarted_def initial_def)
  with assms show ?thesis by simp
qed

lemma stages_snoc: "stages w c = butlast (stages w c) @ [createMarlinJob w c]"
  by (simp add: stages_def)

text \<open>
  When the first seven stages succeed, the job definition, the (non-empty) list of input
  objects and the working ledger are all defined.
\<close>

lemma firstSeven_split:
  "butlast (stages w c) =
     [stopIfDisabled c, auditPreviousJobs w c] @
     [checkRunningJobs w c, setupDirectories w c, setupAssetObject w c] @
     [invokeGetJobObjects c, invokeGetJobDefinition c]"
  by (simp add: stages_def)

lemma pipeline_Continue_append:
  "pipeline (fs @ gs) s = (Continue, s') \<longleftrightarrow>
     (\<exists>s1. pipeline fs s = (Continue, s1) \<and> pipeline gs s1 = (Continue, s'))"
  by (auto simp: pipeline_append split: prod.splits outcome.splits)

lemma firstSeven_defined:
  assumes "pipeline (butlast (stages w c)) (initial w c st) = (Continue, s)"
  shows "\<exists>j os pJobs. job s = Some j \<and> objects s = Some os \<and> os \<noteq> []
           \<and> previousJobs s = Some pJobs"
proof -
  from assms obtain s2 s5 where
    a: "pipeline [stopIfDisabled c, auditPreviousJobs w c] (initial w c st) = (Continue, s2)"
    and b: "pipeline [checkRunningJobs w c, setupDirectories w c, setupAssetObject w c] s2
      = (Continue, s5)"
    and g: "pipeline [invokeGetJobObjects c, invokeGetJobDefinition c] s5 = (Continue, s)"
    unfolding firstSeven_split pipeline_Continue_append by blast
  have "settled s2"
  proof -
    from a have "s2 = snd (auditPreviousJobs w c (initial w c st))"
      using stopIfDisabled_cases [of c "initial w c st"]
      by (auto split: prod.splits outcome.splits)
    moreover have "list_all isStageEvent (trace (initial w c st))" by (simp add: initial_def)
    ultimately show ?thesis by (simp add: auditPreviousJobs_settled)
  qed
  then have "settled (snd (pipeline
      [checkRunningJobs w c, setupDirectories w c, setupAssetObject w c] s2))"
    by (intro pipeline_preserves [where P = settled])
       (auto simp: checkRunningJobs_settled setupDirectories_settled setupAssetObject_settled)
  with b have "previousJobs s5 \<noteq> None" by (simp add: settled_def)
  with g show ?thesis
    by (auto simp: invokeGetJobObjects_def invokeGetJobDefinition_def Let_def
        split: sum.splits option.splits if_splits prod.splits outcome.splits)
qed

text \<open>
  C10.  The first seven stages succeeded and left the job definition \<open>j\<close>, the objects
  \<open>os\<close> and the working ledger \<open>pJobs\<close>; \<open>noJobStart\<close> is not set; \<open>createJob\<close>
  answers with a job id and \<open>addJobKey\<close> fails with an error (one that is not taken
  for \<open>JobDisabled\<close>).  Then the run has created the job and tried to attach the
  objects, the working ledger holds the entry
  \<open>{ timeCreated: now, audited: false }\<close> under the new id, finalization puts that
  ledger to the ledger object, and the caller receives the error of \<open>addJobKey\<close>.  In the
  audit record \<open>startedJob\<close> is still 0 and \<open>numberOfObjects\<close> is not set; \<open>cronFailed\<close>
  is 1 when the error carries no \<open>shouldNotFatal\<close> mark.
\<close>

theorem attach_failure_keeps_entry:
  assumes "pipeline (butlast (stages w c)) (initial w c st) = (Continue, s)"
      and "noJobStart c \<noteq> Some True"
      and "job s = Some j" and "objects s = Some os" and "previousJobs s = Some pJobs"
      and "createJob w j = Inr newId"
      and "addJobKey w newId os = Some err2"
      and "\<not> hasCauseWithName err2 jobDisabled"
  shows "trace (run w c st) =
           trace s @ [CreateJob j, AddJobKey newId os,
             Put (previousJobsObject c)
               (JSON_stringify
                  (AList.update newId \<lparr>timeCreated = now_create w, audited = False\<rparr> pJobs))]
           @ auditRecord c (run w c st) @ [Callback (Some err2)]
     \<and> map_of (AList.update newId \<lparr>timeCreated = now_create w, audited = False\<rparr> pJobs) newId
         = Some \<lparr>timeCreated = now_create w, audited = False\<rparr>
     \<and> previousJobs (run w c st)
         = Some (AList.update newId \<lparr>timeCreated = now_create w, audited = False\<rparr> pJobs)
     \<and> startedJob (audit (run w c st)) = 0
     \<and> numberOfObjects (audit (run w c st)) = None
     \<and> cronFailed (audit (run w c st)) = (if shouldNotFatal err2 = None then 1 else 0)
     \<and> (put_error w (previousJobsObject c) = None \<longrightarrow>
          store (run w c st) (previousJobsObject c) =
            Some (JSON_stringify
              (AList.update newId \<lparr>timeCreated = now_create w, audited = False\<rparr> pJobs)))"
proof -
  let ?L = "AList.update newId \<lparr>timeCreated = now_create w, audited = False\<rparr> pJobs"
  let ?s1 = "(emit (CreateJob j) s)\<lparr>jobId := Some newId, previousJobs := Some ?L\<rparr>"
  have cm: "createMarlinJob w c s = (Fail err2, emit (AddJobKey newId os) ?s1)"
    using assms(2-7) by (simp add: createMarlinJob_def Let_def)
  have p: "pipeline (stages w c) (initial w c st) = (Fail err2, emit (AddJobKey newId os) ?s1)"
    by (subst stages_snoc) (simp add: pipeline_append assms(1) cm)
  have ns: "startedJob (audit s) = 0" "numberOfObjects (audit s) = None"
    using pipeline_notStarted [OF assms(1)] by (simp_all add: notStarted_def)
  have cf: "cronFailed (audit (emit (AddJobKey newId os) ?s1)) = 1"
    using pipeline_cron [OF p] .
  have r: "run w c st = finish w c (Some err2) (emit (AddJobKey newId os) ?s1)"
    by (simp add: run_def p)
  have nd: "\<not> (case Some err2 of None \<Rightarrow> False | Some e \<Rightarrow> hasCauseWithName e jobDisabled)"
    using assms(8) by simp
  have pj: "previousJobs (emit (AddJobKey newId os) ?s1) = Some ?L" by (simp add: emit_def)
  show ?thesis
    unfolding r
    using ns cf
    by (simp add: finish_persists [OF pj nd] update_conv') (simp add: emit_def)
qed

theorem attach_failure_keeps_entry_witness:
  "trace (run w_attach c0 Map.empty) =
     [Mkdir ''/gc'',
      CreateJob \<lparr>jd_name = Some ''gc'', phases = [\<lparr>exec = ''cat'', assets = None\<rparr>]\<rparr>,
      AddJobKey ''job-2'' [''/o1''],
      Put ''/gc/jobs.json'' (LedgerJSON [(''job-2'', \<lparr>timeCreated = 1003, audited = False\<rparr>)]),
      InvocationAudit (audit (run w_attach c0 Map.empty)),
      Callback (Some (Error ''attach failed''))]
   \<and> startedJob (audit (run w_attach c0 Map.empty)) = 0
   \<and> numberOfObjects (audit (run w_attach c0 Map.empty)) = None
   \<and> cronFailed (audit (run w_attach c0 Map.empty)) = 1"
proof -
  let ?s = "snd (pipeline (butlast (stages w_attach c0)) (initial w_attach c0 Map.empty))"
  let ?j = "\<lparr>jd_name = Some ''gc'', phases = [\<lparr>exec = ''cat'', assets = None\<rparr>]\<rparr>"
  have a: "pipeline (butlast (stages w_attach c0)) (initial w_attach c0 Map.empty)
      = (Continue, ?s)"
    by (simp add: stage_defs w_attach_def w0_def c0_def)
  have b: "noJobStart c0 \<noteq> Some True" by (simp add: c0_def)
  have c: "job ?s = Some ?j" "objects ?s = Some [''/o1'']" "previousJobs ?s = Some []"
    "trace ?s = [Mkdir ''/gc'']"
    by (simp_all add: stage_defs w_attach_def w0_def c0_def)
  have d: "createJob w_attach ?j = Inr ''job-2''"
    "addJobKey w_attach ''job-2'' [''/o1''] = Some (Error ''attach failed'')"
    by (simp_all add: w_attach_def w0_def)
  have e: "\<not> hasCauseWithName (Error ''attach failed'') jobDisabled"
    by (simp add: Error_def jobDisabled_def)
  have n: "noJobStart c0 = None" "previousJobsObject c0 = ''/gc/jobs.json''"
    "now_create w_attach = 1003" "shouldNotFatal (Error ''attach failed'') = None"
    by (simp_all add: c0_def w_attach_def w0_def Error_def)
  from attach_failure_keeps_entry [OF a b c(1-3) d e] c(4) n show ?thesis
    by (simp add: auditRecord_def JSON_stringify_def)
qed

subsection \<open>The check for running jobs\<close>




subsection \<open>The two loops over the ledger\<close>

lemma setAudited_keys [simp]: "map fst (setAudited k L) = map fst L"
  unfolding setAudited_def by (induction L) auto

lemma setAudited_conv:
  "distinct (map fst L) \<Longrightarrow> setAudited k L = map (markRecord [k]) L"
  unfolding setAudited_def markRecord_def
proof (induction L)
  case Nil
  then show ?case by simp
next
  case (Cons p ps)
  show ?case
  proof (cases "fst p = k")
    case True
    with Cons.prems have "k \<notin> fst ` set ps" by auto
    then have "map (\<lambda>(k', r). (k', if k' \<in> set [k] then r\<lparr>audited := True\<rparr> else r)) ps = ps"
      by (induction ps) auto
    with True show ?thesis by (cases p) simp
  next
    case False
    with Cons show ?thesis by (cases p) simp
  qed
qed

lemma markRecord_fst [simp]: "fst (markRecord ids p) = fst p"
  by (cases p) (simp add: markRecord_def)

lemma fst_comp_markRecord [simp]: "fst \<circ> markRecord ids = fst"
  by (simp add: fun_eq_iff)

lemma markRecord_twice:
  "markRecord ids (markRecord ids' p) = markRecord (ids' @ ids) p"
  by (cases p) (auto simp: markRecord_def)

lemma markRecord_Nil [simp]: "markRecord [] p = p"
  by (cases p) (simp add: markRecord_def)

lemma map_markRecord_Nil [simp]: "map (markRecord []) L = L"
  by (induction L) auto

lemma okIds_simps [simp]:
  "okIds [] ops = []" "okIds ks [] = []"
  "okIds (k # ks) (op # ops) = (if isOk op then k # okIds ks ops else okIds ks ops)"
  by (simp_all add: okIds_def)

lemma markAudited_conv:
  "distinct (map fst L) \<Longrightarrow> markAudited ks ops L = map (markRecord (okIds ks ops)) L"
proof (induction ks ops L rule: markAudited.induct)
  case (1 k ks op ops pJobs)
  show ?case
  proof (cases "isOk op")
    case True
    have d: "distinct (map fst (setAudited k pJobs))" using "1.prems" by simp
    have "markAudited (k # ks) (op # ops) pJobs
        = map (markRecord (okIds ks ops)) (setAudited k pJobs)"
      using "1.IH" d True by simp
    also have "\<dots> = map (markRecord (okIds ks ops)) (map (markRecord [k]) pJobs)"
      using "1.prems" by (simp add: setAudited_conv)
    also have "\<dots> = map (markRecord (k # okIds ks ops)) pJobs"
      by (simp add: markRecord_twice comp_def)
    finally show ?thesis using True by simp
  next
    case False
    with 1 show ?thesis by simp
  qed
qed simp_all

lemma deleteStep_conv:
  assumes "distinct (map fst L)"
  shows "(case map_of L k of
            Some r \<Rightarrow> if audited r then AList.delete k L else L
          | None \<Rightarrow> L) = filter (\<lambda>(k', r). \<not> (k' = k \<and> audited r)) L"
proof (cases "map_of L k")
  case None
  then have "k \<notin> fst ` set L" by (simp add: map_of_eq_None_iff)
  then have "filter (\<lambda>(k', r). \<not> (k' = k \<and> audited r)) L = L"
    by (force simp: filter_id_conv)
  with None show ?thesis by simp
next
  case (Some r)
  have only: "\<And>k' r'. (k', r') \<in> set L \<Longrightarrow> k' = k \<Longrightarrow> r' = r"
    using assms Some by (auto simp: map_of_eq_Some_iff)
  show ?thesis
  proof (cases "audited r")
    case True
    have "filter (\<lambda>(k', r). \<not> (k' = k \<and> audited r)) L = filter (\<lambda>(k', _). k \<noteq> k') L"
      by (rule filter_cong) (use only True in auto)
    with Some True show ?thesis by (simp add: AList.delete_eq)
  next
    case False
    have "filter (\<lambda>(k', r). \<not> (k' = k \<and> audited r)) L = L"
      using only False by (auto simp: filter_id_conv)
    with Some False show ?thesis by simp
  qed
qed

lemma deleteAudited_conv:
  "distinct (map fst L) \<Longrightarrow>
   deleteAudited ks L = filter (\<lambda>(k, r). \<not> (k \<in> set ks \<and> audited r)) L"
proof (induction ks arbitrary: L)
  case Nil
  then show ?case by simp
next
  case (Cons k ks)
  let ?L1 = "filter (\<lambda>(k', r). \<not> (k' = k \<and> audited r)) L"
  have d: "distinct (map fst ?L1)" using Cons.prems by (simp add: distinct_map_filter)
  have "deleteAudited (k # ks) L = deleteAudited ks ?L1"
    using deleteStep_conv [OF Cons.prems, of k] by simp
  also have "\<dots> = filter (\<lambda>(k, r). \<not> (k \<in> set ks \<and> audited r)) ?L1"
    by (rule Cons.IH [OF d])
  also have "\<dots> = filter (\<lambda>(k', r). \<not> (k' \<in> set (k # ks) \<and> audited r)) L"
    by (auto intro: filter_cong)
  finally show ?case .
qed

text \<open>The deletion loop keeps every entry that is not audited, whatever the ledger.\<close>

lemma deleteAudited_keeps:
  "map_of L k = Some r \<Longrightarrow> \<not> audited r \<Longrightarrow> map_of (deleteAudited ks L) k = Some r"
proof (induction ks arbitrary: L)
  case Nil
  then show ?case by simp
next
  case (Cons k' ks)
  let ?L1 = "case map_of L k' of Some r \<Rightarrow> if audited r then AList.delete k' L else L
     | None \<Rightarrow> L"
  have "map_of ?L1 k = Some r"
    using Cons.prems by (cases "k' = k") (auto split: option.splits)
  from Cons.IH [OF this Cons.prems(2)] show ?case by simp
qed

lemma jobsToDelete_set:
  "distinct (map fst L) \<Longrightarrow> (k, r) \<in> set L \<Longrightarrow>
   k \<in> set (jobsToDelete now L) \<longleftrightarrow> expired now r"
  by (force simp: jobsToDelete_def expired_def dest: eq_key_imp_eq_value)

lemma jobsToAudit_set:
  "distinct (map fst L) \<Longrightarrow> (k, r) \<in> set L \<Longrightarrow>
   k \<in> set (jobsToAudit L) \<longleftrightarrow> \<not> audited r"
  by (force simp: jobsToAudit_def dest: eq_key_imp_eq_value)

lemma expired_markRecord [simp]: "expired now (snd (markRecord ids p)) = expired now (snd p)"
  by (cases p) (simp add: markRecord_def expired_def secondsSinceDone_def)

lemma purge_filter_conv:
  assumes "distinct (map fst L)"
  shows "filter (\<lambda>(k, r). \<not> (k \<in> set (jobsToDelete now L) \<and> audited r))
           (map (markRecord ids) L)
       = filter (\<lambda>(k, r). \<not> (expired now r \<and> audited r)) (map (markRecord ids) L)"
proof (rule filter_cong [OF refl])
  fix p assume "p \<in> set (map (markRecord ids) L)"
  then obtain q where q: "q \<in> set L" and p: "p = markRecord ids q" by auto
  obtain k r where kr: "q = (k, r)" by (cases q)
  have "k \<in> set (jobsToDelete now L) \<longleftrightarrow> expired now r"
    using jobsToDelete_set [OF assms, of k r now] q kr by simp
  moreover have "fst p = k" "expired now (snd p) = expired now r"
    using p kr by simp_all
  ultimately show "(case p of (k, r) \<Rightarrow> \<not> (k \<in> set (jobsToDelete now L) \<and> audited r))
     = (case p of (k, r) \<Rightarrow> \<not> (expired now r \<and> audited r))"
    by (cases p) simp
qed

lemma reconcile_conv:
  assumes "distinct (map fst L)"
  shows "reconcile w c L =
     (if jobsToAudit L = [] then (None, L, [])
      else
        (case forEachParallel_err (getJob w) (jobsToAudit L) of
           Some err2 \<Rightarrow> (Some err2, L, [])
         | None \<Rightarrow>
             (None,
              filter (\<lambda>(k, r). \<not> (expired (now_audit w) r \<and> audited r))
                (map (markRecord (classifiedOk w c L)) L),
              oks (operations (auditJob c)
                     (successes (getJob w) (getJob_done w) (jobsToAudit L))))))"
proof -
  have d: "distinct (map fst (map (markRecord ids) L))" for ids
    using assms by simp
  show ?thesis
    unfolding reconcile_def Let_def markAudited_conv [OF assms] deleteAudited_conv [OF d]
      purge_filter_conv [OF assms] classifiedOk_def
    by (simp split: option.splits)
qed

lemma ledgerAfter_conv:
  assumes "distinct (map fst L)"
  shows "ledgerAfter w c L =
     (if jobsToAudit L = [] \<or> forEachParallel_err (getJob w) (jobsToAudit L) \<noteq> None then L
      else filter (\<lambda>(k, r). \<not> (expired (now_audit w) r \<and> audited r))
             (map (markRecord (classifiedOk w c L)) L))"
  by (auto simp: ledgerAfter_def reconcile_conv [OF assms] split: option.splits)

lemmas rec_defs =
  reconcile_def ledgerAfter_def jobsToAudit_def jobsToDelete_def forEachParallel_err_def
  operations_def successes_def auditJob_def mkAudit_def isOk_def setAudited_def
  secondsSinceDone_def roundSeconds_def MAX_SECONDS_IN_AUDIT_OBJECT_def
  RUNNING_STATE_def QUEUED_STATE_def Error_def Let_def

subsection \<open>Entries that are not audited stay\<close>

text \<open>
  C8.  Take an entry \<open>(k, r)\<close> of a ledger with distinct ids.  If it is not audited and
  its operation in this reconciliation did not end with status \<open>ok\<close>, the ledger after
  the reconciliation still holds it, unchanged, whatever its age.  If the ledger after the
  reconciliation has no entry for \<open>k\<close>, then the entry was expired and its flag was
  true when the deletion loop ran: it was audited before, or it was marked by this
  reconciliation.  And the deletion loop by itself, run on any ledger with any list of
  ids, keeps every entry whose flag is false.
\<close>

theorem unaudited_never_removed:
  assumes "distinct (map fst pJobs)" and "(k, r) \<in> set pJobs"
  shows "(\<not> audited r \<and> k \<notin> set (classifiedOk w c pJobs)
            \<longrightarrow> (k, r) \<in> set (ledgerAfter w c pJobs))
     \<and> (k \<notin> fst ` set (ledgerAfter w c pJobs)
            \<longrightarrow> (audited r \<or> k \<in> set (classifiedOk w c pJobs)) \<and> expired (now_audit w) r)
     \<and> (map_of L k' = Some r' \<and> \<not> audited r'
            \<longrightarrow> map_of (deleteAudited ks L) k' = Some r')"
proof (intro conjI impI)
  assume a: "\<not> audited r \<and> k \<notin> set (classifiedOk w c pJobs)"
  then have m: "markRecord (classifiedOk w c pJobs) (k, r) = (k, r)"
    by (simp add: markRecord_def)
  have "(k, r) \<in> set (map (markRecord (classifiedOk w c pJobs)) pJobs)"
    using assms(2) m by (metis image_eqI set_map)
  with a assms(2) show "(k, r) \<in> set (ledgerAfter w c pJobs)"
    by (simp add: ledgerAfter_conv [OF assms(1)])
next
  assume a: "k \<notin> fst ` set (ledgerAfter w c pJobs)"
  let ?m = "markRecord (classifiedOk w c pJobs) (k, r)"
  have in_m: "?m \<in> set (map (markRecord (classifiedOk w c pJobs)) pJobs)"
    using assms(2) by (metis image_eqI set_map)
  have fm: "fst ?m = k" by simp
  have full: "ledgerAfter w c pJobs =
      filter (\<lambda>(k, r). \<not> (expired (now_audit w) r \<and> audited r))
             (map (markRecord (classifiedOk w c pJobs)) pJobs)"
    using a assms(2) by (auto simp: ledgerAfter_conv [OF assms(1)] image_iff split: if_splits)
  have "?m \<notin> set (ledgerAfter w c pJobs)"
    using a fm by (metis image_eqI)
  then have "expired (now_audit w) (snd ?m) \<and> audited (snd ?m)"
    using in_m unfolding full by (cases ?m) auto
  then have "expired (now_audit w) r" and "audited (snd ?m)" by simp_all
  moreover from \<open>audited (snd ?m)\<close> have "audited r \<or> k \<in> set (classifiedOk w c pJobs)"
    by (auto simp: markRecord_def split: if_splits)
  ultimately show "audited r \<or> k \<in> set (classifiedOk w c pJobs)"
    and "expired (now_audit w) r" by simp_all
next
  assume "map_of L k' = Some r' \<and> \<not> audited r'"
  then show "map_of (deleteAudited ks L) k' = Some r'"
    by (simp add: deleteAudited_keeps)
qed

text \<open>
  The spec's scenario E: an entry eight days old, not audited, whose job is still running,
  is in the ledger after the reconciliation.
\<close>

theorem unaudited_never_removed_witness:
  "distinct (map fst ledger_old_unaudited)
   \<and> expired (now_audit w_old) \<lparr>timeCreated = 1704067200000, audited = False\<rparr>
   \<and> (''job-1'', \<lparr>timeCreated = 1704067200000, audited = False\<rparr>)
        \<in> set (ledgerAfter w_old c0 ledger_old_unaudited)"
proof -
  let ?r = "\<lparr>timeCreated = 1704067200000, audited = False\<rparr>"
  have d: "distinct (map fst ledger_old_unaudited)" by (simp add: ledger_old_unaudited_def)
  have m: "(''job-1'', ?r) \<in> set ledger_old_unaudited" by (simp add: ledger_old_unaudited_def)
  have n: "classifiedOk w_old c0 ledger_old_unaudited = []"
    by (simp add: classifiedOk_def okIds_def rec_defs w_old_def w0_def c0_def job1_done_def
        ledger_old_unaudited_def)
  have e: "expired (now_audit w_old) ?r"
    by (simp add: expired_def rec_defs w_old_def)
  from unaudited_never_removed [OF d m, of w_old c0] n d e show ?thesis by simp
qed

subsection \<open>Purging\<close>

lemma key_in_filtered:
  assumes "distinct (map fst M)" "(k, r) \<in> set M"
  shows "k \<in> fst ` set (filter P M) \<longleftrightarrow> P (k, r)"
proof
  assume "k \<in> fst ` set (filter P M)"
  then obtain r' where "(k, r') \<in> set M" "P (k, r')" by auto
  with assms show "P (k, r)" by (auto dest: eq_key_imp_eq_value)
next
  assume "P (k, r)"
  with assms(2) show "k \<in> fst ` set (filter P M)" by force
qed

text \<open>
  When there is something to audit and every status fetch succeeds, the reconciliation
  removes exactly the entries that are expired and audited (before, or by this
  reconciliation).
\<close>

lemma purge_when_classification_ran:
  assumes d: "distinct (map fst L)" and m: "(k, r) \<in> set L"
      and "jobsToAudit L \<noteq> []"
      and "forEachParallel_err (getJob w) (jobsToAudit L) = None"
  shows "k \<notin> fst ` set (ledgerAfter w c L) \<longleftrightarrow>
     expired (now_audit w) r \<and> (audited r \<or> k \<in> set (classifiedOk w c L))"
proof -
  let ?ok = "classifiedOk w c L"
  let ?M = "map (markRecord ?ok) L"
  let ?r' = "if k \<in> set ?ok then r\<lparr>audited := True\<rparr> else r"
  have dM: "distinct (map fst ?M)" using d by simp
  have "markRecord ?ok (k, r) \<in> set ?M" using m by (metis image_eqI set_map)
  then have mM: "(k, ?r') \<in> set ?M" by (simp add: markRecord_def)
  have e: "expired (now_audit w) ?r' = expired (now_audit w) r"
    by (simp add: expired_def secondsSinceDone_def)
  have "ledgerAfter w c L
      = filter (\<lambda>(k, r). \<not> (expired (now_audit w) r \<and> audited r)) ?M"
    using assms(3,4) by (simp add: ledgerAfter_conv [OF d])
  then show ?thesis
    using key_in_filtered [OF dM mM, of "\<lambda>(k, r). \<not> (expired (now_audit w) r \<and> audited r)"] e
    by auto
qed

text \<open>
  C4.  The claim is that a reconciliation removes an entry exactly when it is audited
  (after the classification of this cycle) and older than seven days, so that every
  audited entry older than seven days is purged.  The code returns before its deletion
  loop when there is nothing to audit.  Here the ledger holds one entry, audited and
  eight days old (691200 seconds, above the 604800 of the threshold): the reconciliation
  succeeds and the entry stays.
\<close>

theorem audited_old_entry_not_purged:
  "secondsSinceDone (now_audit w_old) \<lparr>timeCreated = 1704067200000, audited = True\<rparr> = 691200
   \<and> MAX_SECONDS_IN_AUDIT_OBJECT = 604800
   \<and> reconcile w_old c0 ledger_old_audited = (None, ledger_old_audited, [])"
  by (simp add: rec_defs w_old_def w0_def ledger_old_audited_def)

subsection \<open>The two fan-outs\<close>

lemma fails_Nil_iff: "fails (map f ks) = [] \<longleftrightarrow> (\<forall>k \<in> set ks. isOk (f k))"
proof (induction ks)
  case Nil
  then show ?case by simp
next
  case (Cons k ks)
  then show ?case by (cases "f k") (simp_all add: isOk_def)
qed

lemma forEachParallel_err_None_iff:
  "forEachParallel_err f ks = None \<longleftrightarrow> (\<forall>k \<in> set ks. isOk (f k))"
  using fails_Nil_iff [of f ks]
  by (auto simp: forEachParallel_err_def operations_def split: list.splits)

text \<open>
  The first fan-out is all or nothing: when the status of one job to audit cannot be
  fetched, the reconciliation fails and the ledger is as it was parsed.
\<close>

lemma fetch_failure_fails_fast:
  assumes "k \<in> set (jobsToAudit L)" "\<not> isOk (getJob w k)"
  shows "\<exists>err. reconcile w c L = (Some err, L, [])"
proof -
  have "forEachParallel_err (getJob w) (jobsToAudit L) \<noteq> None"
    using assms by (auto simp: forEachParallel_err_None_iff)
  moreover have "jobsToAudit L \<noteq> []" using assms(1) by auto
  ultimately show ?thesis by (auto simp: reconcile_def Let_def)
qed

lemma okIds_in_order:
  "\<forall>k \<in> set ks. isOk (f k) \<Longrightarrow>
   okIds ks (map g (oks (map f ks)))
     = filter (\<lambda>k. case f k of Inl e \<Rightarrow> False | Inr j \<Rightarrow> isOk (g j)) ks"
proof (induction ks)
  case Nil
  then show ?case by simp
next
  case (Cons k ks)
  then show ?case by (cases "f k") (simp_all add: isOk_def)
qed

text \<open>
  When the status fetches complete in the order in which they were started,
  \<open>results.successes[i]\<close> is the job of \<open>jobsToAudit[i]\<close>: an entry is marked exactly
  when its own job passes \<open>auditJob\<close>.
\<close>

lemma classifiedOk_in_order:
  assumes "sorted (map (getJob_done w) (jobsToAudit L))"
      and "forEachParallel_err (getJob w) (jobsToAudit L) = None"
  shows "classifiedOk w c L = filter (ownOk w c) (jobsToAudit L)"
proof -
  have ok: "\<forall>k \<in> set (jobsToAudit L). isOk (getJob w k)"
    using assms(2) by (simp add: forEachParallel_err_None_iff)
  have "successes (getJob w) (getJob_done w) (jobsToAudit L)
      = oks (map (getJob w) (jobsToAudit L))"
    using assms(1) by (simp add: successes_def sort_key_id_if_sorted)
  moreover have "ownOk w c
      = (\<lambda>k. case getJob w k of Inl e \<Rightarrow> False | Inr j \<Rightarrow> isOk (auditJob c j))"
    by (simp add: fun_eq_iff ownOk_def)
  ultimately show ?thesis
    using okIds_in_order [OF ok, of "auditJob c"]
    by (simp add: classifiedOk_def operations_def)
qed

text \<open>
  With fetches completing in request order, an entry that was not audited is marked
  exactly when its own job passes \<open>auditJob\<close>.
\<close>

lemma in_order_marks_own_entry:
  assumes "distinct (map fst L)"
      and "sorted (map (getJob_done w) (jobsToAudit L))"
      and "forEachParallel_err (getJob w) (jobsToAudit L) = None"
      and "(k, r) \<in> set L" and "\<not> audited r"
  shows "k \<in> set (classifiedOk w c L) \<longleftrightarrow> ownOk w c k"
proof -
  have "k \<in> set (jobsToAudit L)"
    using jobsToAudit_set [OF assms(1,4)] assms(5) by simp
  then show ?thesis
    by (simp add: classifiedOk_in_order [OF assms(2,3)])
qed

text \<open>
  C6.  The claim is that a failing status fetch fails the whole reconciliation and
  leaves the ledger alone, while an entry is marked audited exactly when its own
  classification succeeds.  The first half is \<open>fetch_failure_fails_fast\<close>; the second
  holds when the fetches complete in request order (\<open>in_order_marks_own_entry\<close>) and
  fails otherwise.  Here both A and B are to be audited; job A is still running (its
  classification fails), job B is done (its classification succeeds), and the status of B
  arrives first, so \<open>results.successes\<close> is \<open>[B, A]\<close>.  The reconciliation marks the
  entry of A as audited and leaves the entry of B unaudited; the audit record it logs is
  that of B.
\<close>

theorem out_of_order_fetch_marks_wrong_entry:
  "ownOk w_AB c0 ''A'' = False \<and> ownOk w_AB c0 ''B'' = True
   \<and> reconcile w_AB c0 ledger_AB =
       (None,
        [(''A'', \<lparr>timeCreated = 0, audited = True\<rparr>),
         (''B'', \<lparr>timeCreated = 0, audited = False\<rparr>)],
        [mkAudit jobB])"
  by (simp add: ownOk_def rec_defs w_AB_def w0_def c0_def jobA_def jobB_def ledger_AB_def)

subsection \<open>Reconciling twice\<close>

lemma keep_unaudited:
  "filter (\<lambda>(k, r). \<not> audited r) (filter (\<lambda>(k, r). \<not> (expired now r \<and> audited r)) M)
     = filter (\<lambda>(k, r). \<not> audited r) M"
  by (induction M) auto

lemma jobsToAudit_marked:
  "jobsToAudit (map (markRecord ids) L) = filter (\<lambda>k. k \<notin> set ids) (jobsToAudit L)"
  by (induction L) (auto simp: jobsToAudit_def markRecord_def)

lemma jobsToAudit_after:
  "jobsToAudit (filter (\<lambda>(k, r). \<not> (expired now r \<and> audited r)) (map (markRecord ids) L))
     = filter (\<lambda>k. k \<notin> set ids) (jobsToAudit L)"
proof -
  have "jobsToAudit (filter (\<lambda>(k, r). \<not> (expired now r \<and> audited r)) M) = jobsToAudit M" for M
    unfolding jobsToAudit_def by (simp only: keep_unaudited)
  then show ?thesis by (simp only: jobsToAudit_marked)
qed

lemma purge_idem:
  "filter (\<lambda>(k, r). \<not> (expired now r \<and> audited r))
     (filter (\<lambda>(k, r). \<not> (expired now r \<and> audited r)) M)
   = filter (\<lambda>(k, r). \<not> (expired now r \<and> audited r)) M"
  by simp

text \<open>
  Under the same condition a second reconciliation (same job statuses, same clock) leaves
  the ledger of the first as it is.
\<close>

lemma reconcile_idempotent_in_order:
  assumes d: "distinct (map fst L)"
      and s: "sorted (map (getJob_done w) (jobsToAudit L))"
  shows "ledgerAfter w c (ledgerAfter w c L) = ledgerAfter w c L"
proof (cases "jobsToAudit L = [] \<or> forEachParallel_err (getJob w) (jobsToAudit L) \<noteq> None")
  case True
  then have "ledgerAfter w c L = L" by (simp add: ledgerAfter_conv [OF d])
  then show ?thesis by simp
next
  case False
  let ?ok = "filter (ownOk w c) (jobsToAudit L)"
  let ?keep = "\<lambda>(k, r). \<not> (expired (now_audit w) r \<and> audited r)"
  let ?L' = "filter ?keep (map (markRecord ?ok) L)"
  from False have ne: "jobsToAudit L \<noteq> []"
    and fe: "forEachParallel_err (getJob w) (jobsToAudit L) = None" by simp_all
  have L': "ledgerAfter w c L = ?L'"
    using False by (simp add: ledgerAfter_conv [OF d] classifiedOk_in_order [OF s fe])
  have d': "distinct (map fst ?L')" using d by (simp add: distinct_map_filter)
  have ta: "jobsToAudit ?L' = filter (\<lambda>k. \<not> ownOk w c k) (jobsToAudit L)"
    by (simp only: jobsToAudit_after) (auto intro: filter_cong)
  have s': "sorted (map (getJob_done w) (jobsToAudit ?L'))"
    unfolding ta using s by (rule sorted_filter)
  have fe': "forEachParallel_err (getJob w) (jobsToAudit ?L') = None"
    using fe unfolding ta by (simp add: forEachParallel_err_None_iff)
  have ok': "classifiedOk w c ?L' = []"
    unfolding classifiedOk_in_order [OF s' fe'] ta by (simp add: filter_empty_conv)
  have "ledgerAfter w c ?L' = ?L'"
    unfolding ledgerAfter_conv [OF d'] ok' by (simp del: filter_filter add: purge_idem)
  with L' show ?thesis by simp
qed

text \<open>
  C9.  The claim is that a second reconciliation, with the same job statuses and the same
  clock, leaves the ledger of the first unchanged.  That is
  \<open>reconcile_idempotent_in_order\<close> when the fetches complete in request order.  In the
  situation of A and B above it fails: the first reconciliation marks A, the second one
  marks B.
\<close>

theorem out_of_order_fetch_breaks_idempotence:
  "ledgerAfter w_AB c0 ledger_AB =
     [(''A'', \<lparr>timeCreated = 0, audited = True\<rparr>), (''B'', \<lparr>timeCreated = 0, audited = False\<rparr>)]
   \<and> ledgerAfter w_AB c0 (ledgerAfter w_AB c0 ledger_AB) =
     [(''A'', \<lparr>timeCreated = 0, audited = True\<rparr>), (''B'', \<lparr>timeCreated = 0, audited = True\<rparr>)]"
  by (simp add: rec_defs w_AB_def w0_def c0_def jobA_def jobB_def ledger_AB_def)

end
